theory Spec2Isabelle
  imports Main
begin

section \<open>Spreadsheet cells and JavaScript strings\<close>

text \<open>
  A JavaScript string is a sequence of UTF-16 code units; a code unit is modelled as a
  natural number. \<open>ascii\<close> gives the code units of a literal of ASCII characters. A name
  that the script only passes on and compares as a whole (the handler of a trigger, the name
  of a sheet) is a \<open>string\<close>.
\<close>

type_synonym jsstring = "nat list"

definition ascii :: "string \<Rightarrow> jsstring" where
  "ascii s = map of_char s"

text \<open>
  The script reads cells with \<^verbatim>\<open>getValues()\<close>: a cell is a string, a number, a boolean or
  a date. A number is a double, of which the script reads only whether it is zero (zero is
  falsy) and the text that its \<^verbatim>\<open>toString()\<close> yields: a number other than zero carries that
  text, for instance \<^verbatim>\<open>7\<close>, \<^verbatim>\<open>0.5\<close> or \<^verbatim>\<open>1e+21\<close>. In the same way a date cell carries the
  text that its \<^verbatim>\<open>toString()\<close> yields. The empty cell is the empty string.
\<close>

datatype number = Zero | Nonzero jsstring

datatype cell = CStr jsstring | CNum number | CBool bool | CDate jsstring

text \<open>JavaScript truthiness of a cell value, as used by \<^verbatim>\<open>row[i] ? ... : null\<close>.\<close>

fun truthy :: "cell \<Rightarrow> bool" where
  "truthy (CStr s) = (s \<noteq> [])"
| "truthy (CNum n) = (n \<noteq> Zero)"
| "truthy (CBool b) = b"
| "truthy (CDate d) = True"

fun toString :: "cell \<Rightarrow> jsstring" where
  "toString (CStr s) = s"
| "toString (CNum Zero) = ascii ''0''"
| "toString (CNum (Nonzero text)) = text"
| "toString (CBool b) = (if b then ascii ''true'' else ascii ''false'')"
| "toString (CDate d) = d"

text \<open>
  \<^verbatim>\<open>String.prototype.trim\<close> removes the white space and the line terminators of ECMAScript
  from both ends of a string: the code units U+0009 to U+000D, U+0020, U+00A0, U+1680,
  U+2000 to U+200A, U+2028, U+2029, U+202F, U+205F, U+3000 and U+FEFF.
\<close>

definition isSpace :: "nat \<Rightarrow> bool" where
  "isSpace c \<longleftrightarrow>
     c \<in> {9, 10, 11, 12, 13, 32, 160, 5760, 8232, 8233, 8239, 8287, 12288, 65279}
     \<or> (8192 \<le> c \<and> c \<le> 8202)"

definition trim :: "jsstring \<Rightarrow> jsstring" where
  "trim s = rev (dropWhile isSpace (rev (dropWhile isSpace s)))"

text \<open>
  \<^verbatim>\<open>toLowerCase\<close> on the letters \<open>A\<close> to \<open>Z\<close>. The script compares every lower-cased text with
  a literal of ASCII letters (\<^verbatim>\<open>list:\<close>, \<^verbatim>\<open>completed\<close>, \<^verbatim>\<open>starred\<close>). Beside the capitals
  \<open>A\<close> to \<open>Z\<close>, the case mapping of Unicode yields an ASCII letter only for U+212A (the
  letter \<open>k\<close>, which none of the literals has) and U+0130 (the letter \<open>i\<close> followed by U+0307,
  which no literal has after an \<open>i\<close>), so these comparisons come out as they do with the
  full case mapping.
\<close>

definition lowerChar :: "nat \<Rightarrow> nat" where
  "lowerChar c = (if 65 \<le> c \<and> c \<le> 90 then c + 32 else c)"

definition toLowerCase :: "jsstring \<Rightarrow> jsstring" where
  "toLowerCase s = map lowerChar s"

definition startsWith :: "jsstring \<Rightarrow> jsstring \<Rightarrow> bool" where
  "startsWith s p = (take (length p) s = p)"

text \<open>
  A string-or-null value is \<open>jsstring option\<close>; it is truthy when it is a non-empty string.
  \<open>jsOr a b\<close> is \<^verbatim>\<open>a || b\<close>.
\<close>

fun truthyStr :: "jsstring option \<Rightarrow> bool" where
  "truthyStr None = False"
| "truthyStr (Some s) = (s \<noteq> [])"

definition jsOr :: "jsstring option \<Rightarrow> jsstring option \<Rightarrow> jsstring option" where
  "jsOr a b = (if truthyStr a then a else b)"

text \<open>\<^verbatim>\<open>c ? c.toString().trim() : null\<close>\<close>

definition trimmedOrNull :: "cell \<Rightarrow> jsstring option" where
  "trimmedOrNull c = (if truthy c then Some (trim (toString c)) else None)"

text \<open>
  A row read by \<^verbatim>\<open>getValues()\<close> is rectangular: columns beyond the stored cells hold
  the empty string.
\<close>

definition cellAt :: "cell list \<Rightarrow> nat \<Rightarrow> cell" where
  "cellAt row i = (if i < length row then row ! i else CStr [])"

section \<open>Scheduler bridge: time-based triggers\<close>

text \<open>
  A project trigger is known by its handler function and the delay (in milliseconds from
  now) at which it fires.
\<close>

record trigger =
  handlerFunction :: string
  fireAfterMs :: nat

definition SCRIPT_TRIGGER_HANDLER :: string where
  "SCRIPT_TRIGGER_HANDLER = ''continueProcess''"

text \<open>\<^verbatim>\<open>deleteExistingTriggers\<close>: every trigger whose handler is this job's handler is deleted.\<close>

definition deleteExistingTriggers :: "trigger list \<Rightarrow> trigger list" where
  "deleteExistingTriggers allTriggers =
     filter (\<lambda>t. handlerFunction t \<noteq> SCRIPT_TRIGGER_HANDLER) allTriggers"

text \<open>\<^verbatim>\<open>createTrigger\<close>: delete the existing ones, then register one a minute from now.\<close>

definition createTrigger :: "trigger list \<Rightarrow> trigger list" where
  "createTrigger allTriggers =
     deleteExistingTriggers allTriggers
       @ [\<lparr>handlerFunction = SCRIPT_TRIGGER_HANDLER, fireAfterMs = 60 * 1000\<rparr>]"

definition pendingInvocations :: "trigger list \<Rightarrow> trigger list" where
  "pendingInvocations ts = filter (\<lambda>t. handlerFunction t = SCRIPT_TRIGGER_HANDLER) ts"

section \<open>The Tasks service and the platform\<close>

text \<open>
  A task-list identifier is an opaque non-empty string (its first code unit and the rest),
  so an identifier is always truthy in JavaScript.
\<close>

datatype list_id = ListId nat jsstring

record task =
  title :: jsstring
  status :: "jsstring option"
  due :: "jsstring option"
  notes' :: "jsstring option"

text \<open>A call of the platform either throws or returns.\<close>

datatype 'a js_result = Threw | Returned 'a

text \<open>
  The script runs against the Tasks advanced service, which is not part of the repository:
  it is a parameter. \<open>'r\<close> is the state of the remote service; every call returns the state
  it leaves behind.
  \<^item> \<open>tasklists_list\<close> is \<^verbatim>\<open>Tasks.Tasklists.list().items\<close>: the title and identifier of every
    list, or \<open>None\<close> when \<^verbatim>\<open>items\<close> is undefined;
  \<^item> \<open>tasklists_insert\<close> is \<^verbatim>\<open>Tasks.Tasklists.insert\<close>: \<open>None\<close> when the result is missing
    or carries no identifier;
  \<^item> \<open>tasks_insert\<close> is \<^verbatim>\<open>Tasks.Tasks.insert(task, listId)\<close>;
  \<^item> \<open>dateToISO\<close> is \<^verbatim>\<open>new Date(v)\<close> followed by \<^verbatim>\<open>toISOString()\<close>, \<open>None\<close> for an invalid date.
\<close>

record 'r platform =
  tasklists_list :: "'r \<Rightarrow> (jsstring \<times> list_id) list option js_result \<times> 'r"
  tasklists_insert :: "jsstring \<Rightarrow> 'r \<Rightarrow> list_id option js_result \<times> 'r"
  tasks_insert :: "task \<Rightarrow> list_id \<Rightarrow> 'r \<Rightarrow> unit js_result \<times> 'r"
  dateToISO :: "cell \<Rightarrow> jsstring option"

section \<open>JavaScript objects used as dictionaries\<close>

text \<open>
  The cache and the report are plain objects, written \<^verbatim>\<open>{}\<close> or read by \<^verbatim>\<open>JSON.parse\<close>.
  A map holds their own properties. A lookup \<^verbatim>\<open>obj[k]\<close> of a key that is no own property
  finds the member of \<^verbatim>\<open>Object.prototype\<close> of that name, when there is one: a function
  or object, which is truthy. An assignment \<^verbatim>\<open>obj[k] = v\<close> creates or overwrites an own
  property, except for the key \<^verbatim>\<open>__proto__\<close> when the object has no own property of that
  name: the assignment then reaches the inherited setter, which ignores a string.
\<close>

definition objectPrototypeKeys :: "jsstring list" where
  "objectPrototypeKeys =
     map ascii
       [''constructor'', ''__defineGetter__'', ''__defineSetter__'', ''hasOwnProperty'',
        ''__lookupGetter__'', ''__lookupSetter__'', ''isPrototypeOf'', ''propertyIsEnumerable'',
        ''toString'', ''valueOf'', ''__proto__'', ''toLocaleString'']"

datatype 'a member = Own 'a | Inherited | Absent

definition jsGet :: "(jsstring \<rightharpoonup> 'a) \<Rightarrow> jsstring \<Rightarrow> 'a member" where
  "jsGet obj k =
     (case obj k of
        Some v \<Rightarrow> Own v
      | None \<Rightarrow> if k \<in> set objectPrototypeKeys then Inherited else Absent)"

definition jsSet :: "(jsstring \<rightharpoonup> 'a) \<Rightarrow> jsstring \<Rightarrow> 'a \<Rightarrow> (jsstring \<rightharpoonup> 'a)" where
  "jsSet obj k v = (if k = ascii ''__proto__'' \<and> obj k = None then obj else obj(k \<mapsto> v))"

type_synonym cache = "jsstring \<rightharpoonup> list_id"

record counters =
  completed :: nat
  needsAction :: nat
  total :: nat

type_synonym report = "jsstring \<rightharpoonup> counters"

section \<open>What an execution does: log lines, pauses, remote calls\<close>

text \<open>One constructor for each \<^verbatim>\<open>Logger.log\<close> site of the batch exporter.\<close>

datatype log_entry =
    LogNoSheetName
  | LogSheetNotFound string
  | LogAllDone
  | LogStarting string nat
  | LogCacheRefreshFailed
  | LogMissingHeaders string
  | LogRowNoList nat
  | LogRowEmpty nat
  | LogRowListDef nat
  | LogRowCreated nat jsstring jsstring
  | LogRowFailed nat jsstring
  | LogRowNoId nat jsstring
  | LogBatchDone nat
  | LogListCreated jsstring
  | LogListNoId jsstring
  | LogListCreateThrew jsstring
  | LogListFound jsstring
  | LogListNotFound jsstring
  | LogRefetchFailed

text \<open>
  What \<^verbatim>\<open>getTaskListIdByName\<close> returns: an identifier, \<^verbatim>\<open>null\<close>, or the inherited member
  that a lookup of the cache found.
\<close>

datatype resolved = Resolved list_id | ProtoMember | Null

datatype api_call = ListAll | CreateList jsstring | CreateTask task resolved

datatype event = Log log_entry | Sleep nat | Call api_call

definition API_DELAY_MS :: nat where
  "API_DELAY_MS = 500"

definition BATCH_SIZE :: nat where
  "BATCH_SIZE = 100"

section \<open>Task list resolver\<close>

text \<open>
  \<^verbatim>\<open>getTaskListIdByName(name, cache)\<close>. The cache is passed by reference: the updated cache
  is returned beside the result, the remote state and the events of the call.
\<close>

definition getTaskListIdByName ::
  "'r platform \<Rightarrow> jsstring \<Rightarrow> cache \<Rightarrow> 'r \<Rightarrow> resolved \<times> cache \<times> 'r \<times> event list" where
  "getTaskListIdByName pf name cache r =
     (case jsGet cache name of
        Own i \<Rightarrow> (Resolved i, cache, r, [])
      | Inherited \<Rightarrow> (ProtoMember, cache, r, [])
      | Absent \<Rightarrow>
          (case tasklists_insert pf name r of
             (Returned createdList, r1) \<Rightarrow>
               (case createdList of
                  Some i \<Rightarrow>
                    (Resolved i, jsSet cache name i, r1, [Call (CreateList name), Log (LogListCreated name)])
                | None \<Rightarrow>
                    (Null, cache, r1, [Call (CreateList name), Log (LogListNoId name)]))
           | (Threw, r1) \<Rightarrow>
               (case tasklists_list pf r1 of
                  (Returned items, r2) \<Rightarrow>
                    (case find (\<lambda>l. fst l = name) (case items of Some taskLists \<Rightarrow> taskLists | None \<Rightarrow> []) of
                       Some l \<Rightarrow>
                         (Resolved (snd l), jsSet cache name (snd l), r2,
                          [Call (CreateList name), Log (LogListCreateThrew name), Sleep 2000,
                           Call ListAll, Log (LogListFound name)])
                     | None \<Rightarrow>
                         (Null, cache, r2,
                          [Call (CreateList name), Log (LogListCreateThrew name), Sleep 2000,
                           Call ListAll, Log (LogListNotFound name)]))
                | (Threw, r2) \<Rightarrow>
                    (Null, cache, r2,
                     [Call (CreateList name), Log (LogListCreateThrew name), Sleep 2000,
                      Call ListAll, Log LogRefetchFailed]))))"

text \<open>
  The refresh of the cache at the start of a batch: in the order of the listing, every remote
  list overwrites the entry of its name.
\<close>

definition mergeLists :: "cache \<Rightarrow> (jsstring \<times> list_id) list \<Rightarrow> cache" where
  "mergeLists cache taskLists = foldl (\<lambda>c l. jsSet c (fst l) (snd l)) cache taskLists"

definition refreshCache :: "'r platform \<Rightarrow> cache \<Rightarrow> 'r \<Rightarrow> cache \<times> 'r \<times> event list" where
  "refreshCache pf cache r =
     (case tasklists_list pf r of
        (Returned items, r1) \<Rightarrow>
          (case items of
             Some taskLists \<Rightarrow>
               (mergeLists cache taskLists, r1, [Call ListAll])
           | None \<Rightarrow> (cache, r1, [Call ListAll]))
      | (Threw, r1) \<Rightarrow> (cache, r1, [Call ListAll, Log LogCacheRefreshFailed]))"

section \<open>Row classification and task construction\<close>

text \<open>The column indexes found in the header row; \<open>None\<close> is \<^verbatim>\<open>-1\<close>.\<close>

record columns =
  titleIndex :: nat
  idIndex :: "nat option"
  listTitleIndex :: nat
  statusIndex :: "nat option"
  dueIndex :: "nat option"
  linksIndex :: "nat option"

text \<open>
  The list name in effect at a row: the row's own list title when it has one, else the last
  one seen. This is both the new \<^verbatim>\<open>lastKnownListTitle\<close> and \<^verbatim>\<open>taskListName\<close>.
\<close>

definition effectiveListTitle ::
  "columns \<Rightarrow> cell list \<Rightarrow> jsstring option \<Rightarrow> jsstring option" where
  "effectiveListTitle cols row lastKnown =
     (let listTitleFromCell = trimmedOrNull (cellAt row (listTitleIndex cols))
      in if truthyStr listTitleFromCell then listTitleFromCell else lastKnown)"

definition finalTaskTitle :: "columns \<Rightarrow> cell list \<Rightarrow> jsstring option" where
  "finalTaskTitle cols row =
     (let taskTitleFromCell = trimmedOrNull (cellAt row (titleIndex cols));
          taskIdFromCell =
            (case idIndex cols of
               Some i \<Rightarrow> trimmedOrNull (cellAt row i)
             | None \<Rightarrow> None)
      in jsOr taskTitleFromCell taskIdFromCell)"

definition buildTask :: "'r platform \<Rightarrow> columns \<Rightarrow> cell list \<Rightarrow> jsstring \<Rightarrow> task" where
  "buildTask pf cols row ttl =
     \<lparr> title = ttl,
       status =
         (case statusIndex cols of
            Some s \<Rightarrow>
              if truthy (cellAt row s)
                 \<and> trim (toLowerCase (toString (cellAt row s))) = ascii ''completed''
              then Some (ascii ''completed'') else None
          | None \<Rightarrow> None),
       due =
         (case dueIndex cols of
            Some d \<Rightarrow> if truthy (cellAt row d) then dateToISO pf (cellAt row d) else None
          | None \<Rightarrow> None),
       notes' =
         (case linksIndex cols of
            Some l \<Rightarrow> if truthy (cellAt row l) then Some (ascii ''Link: '' @ toString (cellAt row l)) else None
          | None \<Rightarrow> None) \<rparr>"

section \<open>Report counters\<close>

definition countTask :: "task \<Rightarrow> counters \<Rightarrow> counters" where
  "countTask t c =
     (let c1 = (if status t = Some (ascii ''completed'')
                then c\<lparr>completed := completed c + 1\<rparr>
                else c\<lparr>needsAction := needsAction c + 1\<rparr>)
      in c1\<lparr>total := total c1 + 1\<rparr>)"

text \<open>
  The update of the report after a task was created. When the list name is no own property
  but names a member of \<^verbatim>\<open>Object.prototype\<close>, the lookup is truthy, no entry is created and
  the increments land on that member: the report's own entries stay as they are.
\<close>

definition bumpReport :: "jsstring \<Rightarrow> task \<Rightarrow> report \<Rightarrow> report" where
  "bumpReport taskListName t reportData =
     (case jsGet reportData taskListName of
        Own c \<Rightarrow> reportData(taskListName \<mapsto> countTask t c)
      | Inherited \<Rightarrow> reportData
      | Absent \<Rightarrow>
          reportData(taskListName \<mapsto> countTask t \<lparr>completed = 0, needsAction = 0, total = 0\<rparr>))"

section \<open>The loop over the rows of a batch\<close>

record 'r loop_state =
  lastKnownListTitle :: "jsstring option"
  taskListCache :: cache
  reportData :: report
  remote :: 'r

text \<open>
  \<^verbatim>\<open>Tasks.Tasks.insert(task, currentTaskListId)\<close>. An inherited member of the cache object is
  no list identifier: the call throws and leaves the service as it is.
\<close>

definition insertTask :: "'r platform \<Rightarrow> task \<Rightarrow> resolved \<Rightarrow> 'r \<Rightarrow> unit js_result \<times> 'r" where
  "insertTask pf t currentTaskListId r =
     (case currentTaskListId of
        Resolved i \<Rightarrow> tasks_insert pf t i r
      | ProtoMember \<Rightarrow> (Threw, r)
      | Null \<Rightarrow> (Threw, r))"

text \<open>The part of the loop body from the call of the resolver on.\<close>

definition submitTask ::
  "'r platform \<Rightarrow> columns \<Rightarrow> nat \<Rightarrow> cell list \<Rightarrow> jsstring \<Rightarrow> jsstring \<Rightarrow> 'r loop_state
     \<Rightarrow> 'r loop_state \<times> event list" where
  "submitTask pf cols currentRowNumber row taskListName ttl st =
     (case getTaskListIdByName pf taskListName (taskListCache st) (remote st) of
        (currentTaskListId, cache1, r1, evs) \<Rightarrow>
          if currentTaskListId = Null
          then (st\<lparr>taskListCache := cache1, remote := r1\<rparr>,
                evs @ [Log (LogRowNoId currentRowNumber taskListName)])
          else
            (let t = buildTask pf cols row ttl in
             case insertTask pf t currentTaskListId r1 of
               (Returned u, r2) \<Rightarrow>
                 (st\<lparr>taskListCache := cache1, remote := r2,
                     reportData := bumpReport taskListName t (reportData st)\<rparr>,
                  evs @ [Call (CreateTask t currentTaskListId),
                         Log (LogRowCreated currentRowNumber ttl taskListName),
                         Sleep API_DELAY_MS])
             | (Threw, r2) \<Rightarrow>
                 (st\<lparr>taskListCache := cache1, remote := r2\<rparr>,
                  evs @ [Call (CreateTask t currentTaskListId),
                         Log (LogRowFailed currentRowNumber ttl)])))"

text \<open>The body of the loop for one row.\<close>

definition processRow ::
  "'r platform \<Rightarrow> columns \<Rightarrow> nat \<Rightarrow> cell list \<Rightarrow> 'r loop_state \<Rightarrow> 'r loop_state \<times> event list" where
  "processRow pf cols currentRowNumber row st =
     (let taskListName = effectiveListTitle cols row (lastKnownListTitle st);
          st1 = st\<lparr>lastKnownListTitle := taskListName\<rparr>
      in case taskListName of
           None \<Rightarrow> (st1, [Log (LogRowNoList currentRowNumber)])
         | Some name \<Rightarrow>
             if name = [] then (st1, [Log (LogRowNoList currentRowNumber)])
             else
               (case finalTaskTitle cols row of
                  None \<Rightarrow> (st1, [Log (LogRowEmpty currentRowNumber)])
                | Some ttl \<Rightarrow>
                    if ttl = [] then (st1, [Log (LogRowEmpty currentRowNumber)])
                    else if startsWith (toLowerCase ttl) (ascii ''list:'')
                    then (st1, [Log (LogRowListDef currentRowNumber)])
                    else submitTask pf cols currentRowNumber row name ttl st1))"

fun processRows ::
  "'r platform \<Rightarrow> columns \<Rightarrow> nat \<Rightarrow> cell list list \<Rightarrow> 'r loop_state \<Rightarrow> 'r loop_state \<times> event list" where
  "processRows pf cols currentRowNumber [] st = (st, [])"
| "processRows pf cols currentRowNumber (row # rows) st =
     (case processRow pf cols currentRowNumber row st of
        (st1, evs1) \<Rightarrow>
          (case processRows pf cols (Suc currentRowNumber) rows st1 of
             (st2, evs2) \<Rightarrow> (st2, evs1 @ evs2)))"

section \<open>The spreadsheet and the checkpoint store\<close>

text \<open>
  A sheet is the list of its rows up to the last row with content; row 1 holds the headers.
\<close>

type_synonym sheet = "cell list list"

definition getLastRow :: "sheet \<Rightarrow> nat" where
  "getLastRow sh = length sh"

definition getHeaders :: "sheet \<Rightarrow> cell list" where
  "getHeaders sh = (case sh of [] \<Rightarrow> [] | headers # _ \<Rightarrow> headers)"

text \<open>\<^verbatim>\<open>sheet.getRange(startRow, 1, numRows, lastColumn).getValues()\<close>, for \<open>startRow \<ge> 1\<close>.\<close>

definition getValues :: "sheet \<Rightarrow> nat \<Rightarrow> nat \<Rightarrow> cell list list" where
  "getValues sh startRow numRows = take numRows (drop (startRow - 1) sh)"

text \<open>\<^verbatim>\<open>headers.indexOf(x)\<close>: strict equality, \<open>None\<close> for \<^verbatim>\<open>-1\<close>.\<close>

fun indexOf :: "cell list \<Rightarrow> cell \<Rightarrow> nat option" where
  "indexOf [] x = None"
| "indexOf (h # hs) x = (if h = x then Some 0 else map_option Suc (indexOf hs x))"

definition findColumns :: "cell list \<Rightarrow> columns option" where
  "findColumns headers =
     (case indexOf headers (CStr (ascii ''title'')) of
        None \<Rightarrow> None
      | Some t \<Rightarrow>
          (case indexOf headers (CStr (ascii ''list_title'')) of
             None \<Rightarrow> None
           | Some l \<Rightarrow>
               Some \<lparr> titleIndex = t,
                      idIndex = indexOf headers (CStr (ascii ''id'')),
                      listTitleIndex = l,
                      statusIndex = indexOf headers (CStr (ascii ''status'')),
                      dueIndex = indexOf headers (CStr (ascii ''due'')),
                      linksIndex = indexOf headers (CStr (ascii ''links'')) \<rparr>))"

text \<open>
  The script properties, one field for each key the exporter uses. A property holds the
  value that was stored: \<^verbatim>\<open>JSON.parse\<close> of \<^verbatim>\<open>JSON.stringify\<close> gives back the cache and the
  report, and \<^verbatim>\<open>parseInt\<close> of a row number's decimal text gives back the number.
\<close>

record props =
  PROPERTY_ROW :: "nat option"
  PROPERTY_SHEET_NAME :: "string option"
  PROPERTY_CACHE :: "cache option"
  PROPERTY_LIST :: "jsstring option"
  PROPERTY_REPORT :: "report option"

definition deletedProperties :: props where
  "deletedProperties =
     \<lparr> PROPERTY_ROW = None, PROPERTY_SHEET_NAME = None, PROPERTY_CACHE = None,
       PROPERTY_LIST = None, PROPERTY_REPORT = None \<rparr>"

text \<open>\<^verbatim>\<open>parseInt(properties.getProperty(SCRIPT_PROPERTY_ROW), 10) || 2\<close>\<close>

definition loadStartRow :: "props \<Rightarrow> nat" where
  "loadStartRow p = (case PROPERTY_ROW p of None \<Rightarrow> 2 | Some n \<Rightarrow> if n = 0 then 2 else n)"

text \<open>\<^verbatim>\<open>properties.getProperty(SCRIPT_PROPERTY_LIST) || null\<close>\<close>

definition loadLastKnownListTitle :: "props \<Rightarrow> jsstring option" where
  "loadLastKnownListTitle p =
     (case PROPERTY_LIST p of None \<Rightarrow> None | Some s \<Rightarrow> if s = [] then None else Some s)"

definition loadCache :: "props \<Rightarrow> cache" where
  "loadCache p = (case PROPERTY_CACHE p of None \<Rightarrow> Map.empty | Some c \<Rightarrow> c)"

definition loadReport :: "props \<Rightarrow> report" where
  "loadReport p = (case PROPERTY_REPORT p of None \<Rightarrow> Map.empty | Some r \<Rightarrow> r)"

text \<open>What one execution works on: the script properties, the project triggers, the remote service.\<close>

record 'r host =
  properties :: props
  triggers :: "trigger list"
  service :: 'r

text \<open>
  How an execution of \<^verbatim>\<open>continueProcess\<close> ends: it gives up (a log line and no new
  trigger), it dies of an exception nobody catches, it writes the final report, or it has
  processed a batch and registered the next execution.
\<close>

datatype run_result = Aborted | UncaughtError | Finalized report | Rescheduled

section \<open>The batch runner\<close>

text \<open>
  \<^verbatim>\<open>continueProcess\<close> from the refresh of the cache on, with the batch size as a parameter.
  A range of no rows makes \<^verbatim>\<open>getRange\<close> throw.
\<close>

definition processBatch ::
  "nat \<Rightarrow> 'r platform \<Rightarrow> string \<Rightarrow> sheet \<Rightarrow> nat \<Rightarrow> report \<Rightarrow> 'r host
     \<Rightarrow> run_result \<times> 'r host \<times> event list" where
  "processBatch batchSize pf sourceSheetName sheet startRow reportData0 h =
     (case refreshCache pf (loadCache (properties h)) (service h) of
        (cache1, r1, evs0) \<Rightarrow>
          (case findColumns (getHeaders sheet) of
             None \<Rightarrow>
               (Aborted,
                h\<lparr>triggers := deleteExistingTriggers (triggers h), service := r1\<rparr>,
                Log (LogStarting sourceSheetName startRow) # evs0
                  @ [Log (LogMissingHeaders sourceSheetName)])
           | Some cols \<Rightarrow>
               (let rowsToProcess = min batchSize (getLastRow sheet - startRow + 1) in
                if rowsToProcess = 0
                then (UncaughtError, h\<lparr>service := r1\<rparr>,
                      Log (LogStarting sourceSheetName startRow) # evs0)
                else
                  (case processRows pf cols startRow (getValues sheet startRow rowsToProcess)
                          \<lparr> lastKnownListTitle = loadLastKnownListTitle (properties h),
                            taskListCache = cache1,
                            reportData = reportData0,
                            remote = r1 \<rparr> of
                     (st, evs) \<Rightarrow>
                       (let nextStartRow = startRow + rowsToProcess in
                        (Rescheduled,
                         \<lparr> properties =
                             (properties h)
                               \<lparr> PROPERTY_ROW := Some nextStartRow,
                                 PROPERTY_CACHE := Some (taskListCache st),
                                 PROPERTY_REPORT := Some (reportData st),
                                 PROPERTY_LIST :=
                                   (if truthyStr (lastKnownListTitle st)
                                    then lastKnownListTitle st
                                    else PROPERTY_LIST (properties h)) \<rparr>,
                           triggers = createTrigger (triggers h),
                           service = remote st \<rparr>,
                         Log (LogStarting sourceSheetName startRow) # evs0 @ evs
                           @ [Log (LogBatchDone nextStartRow)]))))))"

definition continueProcessWith ::
  "nat \<Rightarrow> 'r platform \<Rightarrow> (string \<Rightarrow> sheet option) \<Rightarrow> 'r host
     \<Rightarrow> run_result \<times> 'r host \<times> event list" where
  "continueProcessWith batchSize pf getSheetByName h =
     (case PROPERTY_SHEET_NAME (properties h) of
        None \<Rightarrow>
          (Aborted, h\<lparr>triggers := deleteExistingTriggers (triggers h)\<rparr>, [Log LogNoSheetName])
      | Some sourceSheetName \<Rightarrow>
          if sourceSheetName = []
          then (Aborted, h\<lparr>triggers := deleteExistingTriggers (triggers h)\<rparr>, [Log LogNoSheetName])
          else
            (case getSheetByName sourceSheetName of
               None \<Rightarrow>
                 (Aborted, h\<lparr>triggers := deleteExistingTriggers (triggers h)\<rparr>,
                  [Log (LogSheetNotFound sourceSheetName)])
             | Some sheet \<Rightarrow>
                 (let startRow = loadStartRow (properties h);
                      lastRow = getLastRow sheet;
                      reportData0 = loadReport (properties h)
                  in if startRow > lastRow
                     then (Finalized reportData0,
                           h\<lparr>properties := deletedProperties,
                             triggers := deleteExistingTriggers (triggers h)\<rparr>,
                           [Log LogAllDone])
                     else processBatch batchSize pf sourceSheetName sheet startRow reportData0 h)))"

text \<open>\<^verbatim>\<open>continueProcess\<close> as the script has it, with its constant batch size.\<close>

definition continueProcess ::
  "'r platform \<Rightarrow> (string \<Rightarrow> sheet option) \<Rightarrow> 'r host \<Rightarrow> run_result \<times> 'r host \<times> event list" where
  "continueProcess pf getSheetByName h = continueProcessWith BATCH_SIZE pf getSheetByName h"

text \<open>
  \<^verbatim>\<open>createTasksFromCurrentSheet\<close>: the checkpoint is wiped, the pending trigger deleted, the
  name of the active sheet stored, and the first batch run.
\<close>

definition createTasksFromCurrentSheet ::
  "'r platform \<Rightarrow> (string \<Rightarrow> sheet option) \<Rightarrow> string \<Rightarrow> 'r host
     \<Rightarrow> run_result \<times> 'r host \<times> event list" where
  "createTasksFromCurrentSheet pf getSheetByName sheetName h =
     continueProcess pf getSheetByName
       (h\<lparr>properties := deletedProperties\<lparr>PROPERTY_SHEET_NAME := Some sheetName\<rparr>,
          triggers := deleteExistingTriggers (triggers h)\<rparr>)"

text \<open>
  The executions of one export, one after the other: each pending trigger starts the next
  execution on what the last one left. The list gives the batch size of each execution
  (the script uses \<open>BATCH_SIZE\<close> for all of them); after the list one more execution
  follows, which has to be the final one. The result is the report that the final execution
  writes, \<open>None\<close> when the export stops without one.
\<close>

fun runExport ::
  "nat list \<Rightarrow> 'r platform \<Rightarrow> (string \<Rightarrow> sheet option) \<Rightarrow> 'r host \<Rightarrow> report option" where
  "runExport [] pf getSheetByName h =
     (case continueProcessWith BATCH_SIZE pf getSheetByName h of
        (Finalized rep, h1, evs) \<Rightarrow> Some rep
      | (other, h1, evs) \<Rightarrow> None)"
| "runExport (b # bs) pf getSheetByName h =
     (case continueProcessWith b pf getSheetByName h of
        (Rescheduled, h1, evs) \<Rightarrow> runExport bs pf getSheetByName h1
      | (Finalized rep, h1, evs) \<Rightarrow> Some rep
      | (other, h1, evs) \<Rightarrow> None)"

text \<open>The row numbers that the row-level log lines of an execution name, in order.\<close>

fun rowOfLog :: "log_entry \<Rightarrow> nat option" where
  "rowOfLog (LogRowNoList n) = Some n"
| "rowOfLog (LogRowEmpty n) = Some n"
| "rowOfLog (LogRowListDef n) = Some n"
| "rowOfLog (LogRowCreated n ttl name) = Some n"
| "rowOfLog (LogRowFailed n ttl) = Some n"
| "rowOfLog (LogRowNoId n name) = Some n"
| "rowOfLog other = None"

fun rowOfEvent :: "event \<Rightarrow> nat option" where
  "rowOfEvent (Log l) = rowOfLog l"
| "rowOfEvent other = None"

definition rowsLogged :: "event list \<Rightarrow> nat list" where
  "rowsLogged evs = List.map_filter rowOfEvent evs"

section \<open>The single-pass exporter\<close>

text \<open>
  \<^verbatim>\<open>createTasksFromSheet\<close> of the first version of the script builds the notes of a task from
  the cell of the \<^verbatim>\<open>links\<close> column in its own way: only from a string, trimmed, and not
  when the cell says that the task is starred.
\<close>

definition createTasksFromSheet_notes :: "cell \<Rightarrow> jsstring option" where
  "createTasksFromSheet_notes taskLink =
     (case taskLink of
        CStr s \<Rightarrow>
          if trim s \<noteq> [] \<and> toLowerCase s \<noteq> ascii ''starred''
          then Some (ascii ''Link: '' @ trim s) else None
      | other \<Rightarrow> None)"

section \<open>Test doubles of the Tasks service\<close>

text \<open>
  The state of \<open>mockTasks\<close> is the list of the task lists it holds. A list gets the
  identifier \<open>L\<close> followed by its name. Creating the list \<open>locked\<close> throws, creating the list \<open>ghost\<close> returns no
  identifier, and inserting a task titled \<open>bad\<close> throws.
\<close>

definition mockTasks :: "(jsstring \<times> list_id) list platform" where
  "mockTasks =
     \<lparr> tasklists_list = (\<lambda>r. (Returned (Some r), r)),
       tasklists_insert =
         (\<lambda>name r.
            if name = ascii ''locked'' then (Threw, r)
            else if name = ascii ''ghost'' then (Returned None, r)
            else (Returned (Some (ListId 76 name)), r @ [(name, ListId 76 name)])),
       tasks_insert = (\<lambda>t i r. (if title t = ascii ''bad'' then Threw else Returned (), r)),
       dateToISO = (\<lambda>c. None) \<rparr>"

text \<open>A sheet of five rows under the headers, and the spreadsheet that holds it as \<open>Tasks\<close>.\<close>

definition demoSheet :: sheet where
  "demoSheet =
     [[CStr (ascii ''list_title''), CStr (ascii ''id''), CStr (ascii ''title''),
       CStr (ascii ''status''), CStr (ascii ''links'')],
      [CStr (ascii ''Work''), CStr (ascii ''t1''), CStr (ascii ''Buy milk''),
       CStr (ascii ''needsAction''), CStr (ascii ''http://x'')],
      [CStr [], CStr (ascii ''t2''), CStr [], CStr (ascii ''Completed ''), CStr (ascii ''starred'')],
      [CStr [], CStr (ascii ''t3''), CStr (ascii ''bad''), CStr [], CStr []],
      [CStr (ascii '' Home ''), CStr [], CStr [], CStr [], CStr []],
      [CStr [], CNum (Nonzero (ascii ''7'')), CStr (ascii ''Call''), CStr (ascii ''completed''),
       CStr []]]"

definition demoSpreadsheet :: "string \<Rightarrow> sheet option" where
  "demoSpreadsheet name = (if name = ''Tasks'' then Some demoSheet else None)"

definition demoHost :: "(jsstring \<times> list_id) list host" where
  "demoHost =
     \<lparr> properties = deletedProperties\<lparr>PROPERTY_SHEET_NAME := Some ''Tasks''\<rparr>,
       triggers = [],
       service = [] \<rparr>"

text \<open>The columns of the demo sheet, and the loop variables of a fresh export.\<close>

definition demoColumns :: columns where
  "demoColumns =
     \<lparr> titleIndex = 2, idIndex = Some 1, listTitleIndex = 0, statusIndex = Some 3,
       dueIndex = None, linksIndex = Some 4 \<rparr>"

definition demoLoopState :: "(jsstring \<times> list_id) list loop_state" where
  "demoLoopState =
     \<lparr> lastKnownListTitle = None, taskListCache = Map.empty, reportData = Map.empty,
       remote = [] \<rparr>"

text \<open>
  More test doubles of the Tasks service. \<open>quotaTasks\<close> has a quota of calls: its state is
  the number of calls made so far and the lists it holds, and a call beyond the quota
  throws. \<open>tallyTasks\<close> counts its calls and never acts on the count. \<open>newestFirstTasks\<close>
  lists the list created last first. \<open>aliasTasks\<close> shows a list in its listing under another
  identifier (\<open>X\<close> followed by the name) than the creation of the list returned, and accepts
  tasks for the list \<open>A\<close> under the returned identifier only.
\<close>

definition quotaTasks :: "nat \<Rightarrow> (nat \<times> (jsstring \<times> list_id) list) platform" where
  "quotaTasks quota =
     \<lparr> tasklists_list =
         (\<lambda>(calls, lists).
            (if calls < quota then Returned (Some lists) else Threw, (Suc calls, lists))),
       tasklists_insert =
         (\<lambda>name (calls, lists).
            if calls < quota
            then (Returned (Some (ListId 76 name)), (Suc calls, lists @ [(name, ListId 76 name)]))
            else (Threw, (Suc calls, lists))),
       tasks_insert =
         (\<lambda>t i (calls, lists). (if calls < quota then Returned () else Threw, (Suc calls, lists))),
       dateToISO = (\<lambda>c. None) \<rparr>"

definition tallyTasks :: "(nat \<times> (jsstring \<times> list_id) list) platform" where
  "tallyTasks =
     \<lparr> tasklists_list = (\<lambda>(calls, lists). (Returned (Some lists), (Suc calls, lists))),
       tasklists_insert =
         (\<lambda>name (calls, lists).
            (Returned (Some (ListId 76 name)), (Suc calls, lists @ [(name, ListId 76 name)]))),
       tasks_insert = (\<lambda>t i (calls, lists). (Returned (), (Suc calls, lists))),
       dateToISO = (\<lambda>c. None) \<rparr>"

definition newestFirstTasks :: "(jsstring \<times> list_id) list platform" where
  "newestFirstTasks =
     \<lparr> tasklists_list = (\<lambda>r. (Returned (Some r), r)),
       tasklists_insert =
         (\<lambda>name r. (Returned (Some (ListId 76 name)), (name, ListId 76 name) # r)),
       tasks_insert = (\<lambda>t i r. (Returned (), r)),
       dateToISO = (\<lambda>c. None) \<rparr>"

definition aliasTasks :: "(jsstring \<times> list_id) list platform" where
  "aliasTasks =
     \<lparr> tasklists_list = (\<lambda>r. (Returned (Some r), r)),
       tasklists_insert =
         (\<lambda>name r. (Returned (Some (ListId 76 name)), r @ [(name, ListId 88 name)])),
       tasks_insert =
         (\<lambda>t i r. (if i = ListId 76 (ascii ''A'') then Returned () else Threw, r)),
       dateToISO = (\<lambda>c. None) \<rparr>"

text \<open>
  A sheet of two tasks for one list, the spreadsheet that holds it as \<open>Tasks\<close>, and the host
  of a fresh export of that sheet against a remote service in a given state.
\<close>

definition pairSheet :: sheet where
  "pairSheet =
     [[CStr (ascii ''list_title''), CStr (ascii ''title'')],
      [CStr (ascii ''A''), CStr (ascii ''t1'')],
      [CStr [], CStr (ascii ''t2'')]]"

definition pairSpreadsheet :: "string \<Rightarrow> sheet option" where
  "pairSpreadsheet name = (if name = ''Tasks'' then Some pairSheet else None)"

definition freshHost :: "'r \<Rightarrow> 'r host" where
  "freshHost r =
     \<lparr> properties = deletedProperties\<lparr>PROPERTY_SHEET_NAME := Some ''Tasks''\<rparr>,
       triggers = [],
       service = r \<rparr>"

section \<open>Notions used to state the properties\<close>

text \<open>
  The list-marker value of a row: the trimmed text of its list title cell, when the cell is
  truthy and the text is not empty. The most recent marker of a sequence of rows in
  document order is the last marker among them, or the name carried in when none of them
  has a marker.
\<close>

definition listMarker :: "columns \<Rightarrow> cell list \<Rightarrow> jsstring option" where
  "listMarker cols row =
     (let c = cellAt row (listTitleIndex cols)
      in if truthy c \<and> trim (toString c) \<noteq> [] then Some (trim (toString c)) else None)"

definition mostRecentMarker ::
  "columns \<Rightarrow> jsstring option \<Rightarrow> cell list list \<Rightarrow> jsstring option" where
  "mostRecentMarker cols carried rows =
     (case List.map_filter (listMarker cols) rows of
        [] \<Rightarrow> carried
      | m # ms \<Rightarrow> Some (last (m # ms)))"



text \<open>
  A batch runs when the checkpoint names a sheet of the spreadsheet, the header row has the
  required columns, the cursor is not past the last row and the batch size is positive.
\<close>

definition batchRuns ::
  "nat \<Rightarrow> (string \<Rightarrow> sheet option) \<Rightarrow> 'r host \<Rightarrow> sheet \<Rightarrow> columns \<Rightarrow> bool" where
  "batchRuns batchSize getSheetByName h sheet cols \<longleftrightarrow>
     (\<exists>name. PROPERTY_SHEET_NAME (properties h) = Some name \<and> name \<noteq> []
        \<and> getSheetByName name = Some sheet)
     \<and> findColumns (getHeaders sheet) = Some cols
     \<and> loadStartRow (properties h) \<le> getLastRow sheet
     \<and> 0 < batchSize"

text \<open>The rows that a batch reads, and the number of the row after them.\<close>

definition rowsToProcess :: "nat \<Rightarrow> sheet \<Rightarrow> 'r host \<Rightarrow> nat" where
  "rowsToProcess batchSize sheet h =
     min batchSize (getLastRow sheet - loadStartRow (properties h) + 1)"

definition batchRows :: "nat \<Rightarrow> sheet \<Rightarrow> 'r host \<Rightarrow> cell list list" where
  "batchRows batchSize sheet h =
     getValues sheet (loadStartRow (properties h)) (rowsToProcess batchSize sheet h)"

text \<open>The rows of the sheet that the export still has to process.\<close>

definition remainingRows :: "(string \<Rightarrow> sheet option) \<Rightarrow> 'r host \<Rightarrow> nat" where
  "remainingRows getSheetByName h =
     (case PROPERTY_SHEET_NAME (properties h) of
        None \<Rightarrow> 0
      | Some name \<Rightarrow>
          (case getSheetByName name of
             None \<Rightarrow> 0
           | Some sheet \<Rightarrow> getLastRow sheet + 1 - loadStartRow (properties h)))"

text \<open>
  What a listing of the remote service shows, and the identifier that a refresh of the
  cache takes from it for a name: that of the last list of the name in the listing.
\<close>

definition visibleLists :: "'r platform \<Rightarrow> 'r \<Rightarrow> (jsstring \<times> list_id) list" where
  "visibleLists pf r =
     (case fst (tasklists_list pf r) of
        Returned (Some taskLists) \<Rightarrow> taskLists
      | other \<Rightarrow> [])"

definition listed :: "'r platform \<Rightarrow> 'r \<Rightarrow> cache" where
  "listed pf r = map_of (rev (visibleLists pf r))"

text \<open>
  A relation between the states of the service is a simulation when from related states
  the service answers every call alike and leaves related states behind. States so related
  cannot be told apart by any sequence of calls.
\<close>

definition isSimulation :: "'r platform \<Rightarrow> ('r \<Rightarrow> 'r \<Rightarrow> bool) \<Rightarrow> bool" where
  "isSimulation pf sim \<longleftrightarrow>
     (\<forall>r. sim r r)
     \<and> (\<forall>x y z. sim x y \<longrightarrow> sim y z \<longrightarrow> sim x z)
     \<and> (\<forall>x y. sim x y \<longrightarrow>
            fst (tasklists_list pf x) = fst (tasklists_list pf y)
            \<and> sim (snd (tasklists_list pf x)) (snd (tasklists_list pf y)))
     \<and> (\<forall>name x y. sim x y \<longrightarrow>
            fst (tasklists_insert pf name x) = fst (tasklists_insert pf name y)
            \<and> sim (snd (tasklists_insert pf name x)) (snd (tasklists_insert pf name y)))
     \<and> (\<forall>t i x y. sim x y \<longrightarrow>
            fst (tasks_insert pf t i x) = fst (tasks_insert pf t i y)
            \<and> sim (snd (tasks_insert pf t i x)) (snd (tasks_insert pf t i y)))"

text \<open>
  A remote service that is stable under the export:
  \<^item> listing the task lists has no effect that a later call can observe: the service as the
    listing leaves it cannot be told apart from the service as it was;
  \<^item> inserting a task does not change the identifier that the listing shows for a name;
  \<^item> inserting a task list changes this at most for the name of the list, to the identifier
    that the call returned.
  A service without a state of its own (\<open>'r\<close> is \<open>unit\<close>) is of this kind, and so is a service
  that holds the lists created and lists them in any order, or that counts its calls and
  never acts on the count.
\<close>

definition stableRemote :: "'r platform \<Rightarrow> bool" where
  "stableRemote pf \<longleftrightarrow>
     (\<exists>sim. isSimulation pf sim \<and> (\<forall>r. sim (snd (tasklists_list pf r)) r))
     \<and> (\<forall>t i r. listed pf (snd (tasks_insert pf t i r)) = listed pf r)
     \<and> (\<forall>name r.
           listed pf (snd (tasklists_insert pf name r)) = listed pf r
           \<or> (\<exists>i. fst (tasklists_insert pf name r) = Returned (Some i)
                  \<and> listed pf (snd (tasklists_insert pf name r)) = (listed pf r)(name \<mapsto> i)))"

text \<open>Loop variables that agree but for remote states that are related.\<close>

definition sameLoop :: "('r \<Rightarrow> 'r \<Rightarrow> bool) \<Rightarrow> 'r loop_state \<Rightarrow> 'r loop_state \<Rightarrow> bool" where
  "sameLoop sim s s' \<longleftrightarrow>
     lastKnownListTitle s = lastKnownListTitle s'
     \<and> taskListCache s = taskListCache s'
     \<and> reportData s = reportData s'
     \<and> sim (remote s) (remote s')"

text \<open>
  The linear scan of a listing for the first list of a given name, and the tasks that an
  execution submits to the service, in order.
\<close>

definition firstMatch ::
  "jsstring \<Rightarrow> (jsstring \<times> list_id) list option js_result \<Rightarrow> list_id option" where
  "firstMatch name res =
     (case res of
        Returned (Some taskLists) \<Rightarrow> map_option snd (find (\<lambda>l. fst l = name) taskLists)
      | other \<Rightarrow> None)"

fun submittedTask :: "event \<Rightarrow> task option" where
  "submittedTask (Call (CreateTask t res)) = Some t"
| "submittedTask other = None"

definition submittedTasks :: "event list \<Rightarrow> task list" where
  "submittedTasks evs = List.map_filter submittedTask evs"

text \<open>The values of the loop variables when the loop over the rows of a batch starts.\<close>

definition initialLoopState :: "'r platform \<Rightarrow> 'r host \<Rightarrow> 'r loop_state" where
  "initialLoopState pf h =
     (case refreshCache pf (loadCache (properties h)) (service h) of
        (cache1, r1, evs0) \<Rightarrow>
          \<lparr> lastKnownListTitle = loadLastKnownListTitle (properties h),
            taskListCache = cache1,
            reportData = loadReport (properties h),
            remote = r1 \<rparr>)"

text \<open>
  The cache is current when a refresh from the remote listing would not change it, and the
  report that the export yields when one loop processes all the rows that remain.
\<close>

definition cacheCurrent :: "'r platform \<Rightarrow> cache \<Rightarrow> 'r \<Rightarrow> bool" where
  "cacheCurrent pf cache r \<longleftrightarrow> mergeLists cache (visibleLists pf r) = cache"

definition wholeExport ::
  "'r platform \<Rightarrow> (string \<Rightarrow> sheet option) \<Rightarrow> 'r host \<Rightarrow> report option" where
  "wholeExport pf getSheetByName h =
     (case PROPERTY_SHEET_NAME (properties h) of
        None \<Rightarrow> None
      | Some name \<Rightarrow>
          if name = [] then None
          else
            (case getSheetByName name of
               None \<Rightarrow> None
             | Some sheet \<Rightarrow>
                 if loadStartRow (properties h) > getLastRow sheet
                 then Some (loadReport (properties h))
                 else
                   (case findColumns (getHeaders sheet) of
                      None \<Rightarrow> None
                    | Some cols \<Rightarrow>
                        Some (reportData
                                (fst (processRows pf cols (loadStartRow (properties h))
                                        (drop (loadStartRow (properties h) - 1) sheet)
                                        (initialLoopState pf h)))))))"

text \<open>The entry of a list in the report of an export, when the export wrote one.\<close>

definition reportOf :: "report option \<Rightarrow> jsstring \<Rightarrow> counters option" where
  "reportOf res name = (case res of None \<Rightarrow> None | Some rep \<Rightarrow> rep name)"

section \<open>Properties of the scheduler bridge\<close>

lemma pending_deleteExistingTriggers: "pendingInvocations (deleteExistingTriggers ts) = []"
  by (induction ts) (auto simp: pendingInvocations_def deleteExistingTriggers_def)

lemma pending_createTrigger:
  "pendingInvocations (createTrigger ts)
     = [\<lparr>handlerFunction = SCRIPT_TRIGGER_HANDLER, fireAfterMs = 60 * 1000\<rparr>]"
  using pending_deleteExistingTriggers [of ts]
  by (simp add: createTrigger_def pendingInvocations_def)

text \<open>
  C9. After every call of the reschedule operation, exactly one pending invocation of this
  job's handler exists, whatever was pending before; calling it any number of times in a
  row leaves exactly one.
\<close>

theorem reschedule_exactly_one:
  "length (pendingInvocations ((createTrigger ^^ Suc n) ts)) = 1"
  by (simp add: pending_createTrigger)

section \<open>Auxiliary facts about the loop\<close>

lemma jsGet_Absent: "jsGet obj k = Absent \<longleftrightarrow> obj k = None \<and> k \<notin> set objectPrototypeKeys"
  by (auto simp: jsGet_def split: option.splits)

lemma jsSet_plain: "k \<noteq> ascii ''__proto__'' \<Longrightarrow> jsSet obj k v = obj(k \<mapsto> v)"
  by (simp add: jsSet_def)

lemma map_filter_append: "List.map_filter f (xs @ ys) = List.map_filter f xs @ List.map_filter f ys"
  by (simp add: List.map_filter_def)

lemma rowsLogged_Nil [simp]: "rowsLogged [] = []"
  by (simp add: rowsLogged_def)

lemma rowsLogged_Cons [simp]:
  "rowsLogged (e # evs) = (case rowOfEvent e of None \<Rightarrow> rowsLogged evs | Some n \<Rightarrow> n # rowsLogged evs)"
  by (simp add: rowsLogged_def split: option.splits)

lemma rowsLogged_append [simp]: "rowsLogged (xs @ ys) = rowsLogged xs @ rowsLogged ys"
  by (simp add: rowsLogged_def map_filter_append)

lemma submittedTasks_Nil [simp]: "submittedTasks [] = []"
  by (simp add: submittedTasks_def)

lemma submittedTasks_Cons [simp]:
  "submittedTasks (e # evs) = (case submittedTask e of None \<Rightarrow> submittedTasks evs | Some t \<Rightarrow> t # submittedTasks evs)"
  by (simp add: submittedTasks_def split: option.splits)

lemma submittedTasks_append [simp]: "submittedTasks (xs @ ys) = submittedTasks xs @ submittedTasks ys"
  by (simp add: submittedTasks_def map_filter_append)

lemma resolver_events:
  assumes "getTaskListIdByName pf name cache r = (res, cache1, r1, evs)"
  shows "rowsLogged evs = [] \<and> submittedTasks evs = []"
  using assms
  by (auto simp: getTaskListIdByName_def
           split: member.splits prod.splits js_result.splits option.splits)

lemma submitTask_rowsLogged:
  "rowsLogged (snd (submitTask pf cols n row name ttl st)) = [n]"
proof -
  obtain res cache1 r1 evs where g:
    "getTaskListIdByName pf name (taskListCache st) (remote st) = (res, cache1, r1, evs)"
    by (metis prod_cases4)
  from resolver_events [OF g] have "rowsLogged evs = []" by simp
  with g show ?thesis
    by (auto simp: submitTask_def Let_def split: prod.splits js_result.splits)
qed

lemma processRow_rowsLogged:
  "rowsLogged (snd (processRow pf cols n row st)) = [n]"
  by (simp add: processRow_def Let_def submitTask_rowsLogged split: option.splits)

lemma processRows_rowsLogged:
  "rowsLogged (snd (processRows pf cols n rows st)) = [n ..< n + length rows]"
proof (induction rows arbitrary: n st)
  case Nil
  show ?case by simp
next
  case (Cons row rows)
  obtain st1 evs1 where p: "processRow pf cols n row st = (st1, evs1)" by (cases "processRow pf cols n row st")
  obtain st2 evs2 where q: "processRows pf cols (Suc n) rows st1 = (st2, evs2)" by (cases "processRows pf cols (Suc n) rows st1")
  from processRow_rowsLogged [of pf cols n row st] p have "rowsLogged evs1 = [n]" by simp
  moreover from Cons.IH [of "Suc n" st1] q have "rowsLogged evs2 = [Suc n ..< Suc n + length rows]" by simp
  ultimately show ?case using p q by (simp add: upt_rec)
qed

lemma processRows_append:
  "processRows pf cols n (xs @ ys) st =
     (case processRows pf cols n xs st of
        (st1, evs1) \<Rightarrow>
          (case processRows pf cols (n + length xs) ys st1 of
             (st2, evs2) \<Rightarrow> (st2, evs1 @ evs2)))"
  by (induction xs arbitrary: n st) (auto split: prod.splits)

lemma fst_processRows_append:
  "fst (processRows pf cols n (xs @ ys) st) =
     fst (processRows pf cols (n + length xs) ys (fst (processRows pf cols n xs st)))"
  by (simp add: processRows_append split: prod.splits)

lemma effectiveListTitle_marker:
  "effectiveListTitle cols row lk = (case listMarker cols row of Some m \<Rightarrow> Some m | None \<Rightarrow> lk)"
  by (auto simp: effectiveListTitle_def listMarker_def trimmedOrNull_def Let_def)

lemma mostRecentMarker_alt:
  "mostRecentMarker cols lk rows =
     (if List.map_filter (listMarker cols) rows = [] then lk
      else Some (last (List.map_filter (listMarker cols) rows)))"
  by (simp add: mostRecentMarker_def split: list.splits)

lemma mostRecentMarker_Nil [simp]: "mostRecentMarker cols lk [] = lk"
  by (simp add: mostRecentMarker_alt)

lemma mostRecentMarker_snoc:
  "mostRecentMarker cols lk (rows @ [row]) = effectiveListTitle cols row (mostRecentMarker cols lk rows)"
  by (simp add: mostRecentMarker_alt effectiveListTitle_marker map_filter_append split: option.splits)

lemma mostRecentMarker_Cons:
  "mostRecentMarker cols lk (row # rows) = mostRecentMarker cols (effectiveListTitle cols row lk) rows"
  by (simp add: mostRecentMarker_alt effectiveListTitle_marker split: option.splits)

lemma fst_processRows_Cons:
  "fst (processRows pf cols n (row # rows) st) =
     fst (processRows pf cols (Suc n) rows (fst (processRow pf cols n row st)))"
  by (simp split: prod.splits)

lemma submitTask_lastKnown:
  "lastKnownListTitle (fst (submitTask pf cols n row name ttl st)) = lastKnownListTitle st"
  by (auto simp: submitTask_def Let_def split: prod.splits js_result.splits)

lemma processRow_lastKnown:
  "lastKnownListTitle (fst (processRow pf cols n row st)) = effectiveListTitle cols row (lastKnownListTitle st)"
  by (auto simp: processRow_def Let_def submitTask_lastKnown split: option.splits)

lemma processRows_lastKnown:
  "lastKnownListTitle (fst (processRows pf cols n rows st)) = mostRecentMarker cols (lastKnownListTitle st) rows"
proof (induction rows arbitrary: n st)
  case Nil
  show ?case by simp
next
  case (Cons row rows)
  show ?case
    using Cons.IH [of "Suc n" "fst (processRow pf cols n row st)"]
    by (simp only: fst_processRows_Cons mostRecentMarker_Cons processRow_lastKnown)
qed

section \<open>Evaluating the model on concrete inputs\<close>

text \<open>The definitions that the simplifier unfolds to run an execution on the demo sheet.\<close>

lemmas eval_defs =
  continueProcess_def continueProcessWith_def processBatch_def refreshCache_def mergeLists_def
  findColumns_def getHeaders_def getValues_def getLastRow_def loadStartRow_def loadCache_def
  loadReport_def loadLastKnownListTitle_def deletedProperties_def BATCH_SIZE_def API_DELAY_MS_def
  processRow_def submitTask_def insertTask_def getTaskListIdByName_def buildTask_def
  effectiveListTitle_def finalTaskTitle_def trimmedOrNull_def jsOr_def cellAt_def
  jsGet_def jsSet_def objectPrototypeKeys_def bumpReport_def countTask_def
  trim_def isSpace_def toLowerCase_def lowerChar_def startsWith_def ascii_def
  createTrigger_def deleteExistingTriggers_def SCRIPT_TRIGGER_HANDLER_def
  mockTasks_def demoSheet_def demoSpreadsheet_def demoHost_def demoColumns_def
  demoLoopState_def

text \<open>
  Trimming removes the white space of Unicode from both ends, not only that of ASCII, and
  leaves a zero width space (U+200B), which is no white space, where it is. A title cell
  that holds a no-break space only is blank, and an id or a number is taken with the text
  that \<^verbatim>\<open>toString()\<close> and \<^verbatim>\<open>trim()\<close> give.
\<close>

lemma trim_unicode_white_space:
  "trim ([160, 65279, 8232, 9] @ ascii ''t9'' @ [12288, 5760, 32]) = ascii ''t9''
   \<and> trim [8203] = [8203]"
  by (simp add: trim_def isSpace_def ascii_def)

lemma finalTaskTitle_trimmed_id:
  "finalTaskTitle demoColumns [CStr [], CStr (ascii ''t9'' @ [160]), CStr [160]] = Some (ascii ''t9'')
   \<and> finalTaskTitle demoColumns [CStr [], CNum (Nonzero (ascii ''1e+21'')), CStr []]
       = Some (ascii ''1e+21'')
   \<and> finalTaskTitle demoColumns [CStr [], CNum Zero, CStr []] = None"
  by (simp add: eval_defs Let_def)

section \<open>Properties of the task list resolver\<close>

text \<open>
  C4. For a name that the cache holds, the resolver returns the cached identifier at once:
  the cache and the remote service are as before and nothing happened (no remote call, no
  pause, no log line). A repeated call on what the first call left finds the same, so no
  call for a cached name ever creates a list.
\<close>

theorem cache_hit_no_remote_call:
  assumes "cache name = Some i"
  shows "getTaskListIdByName pf name cache r = (Resolved i, cache, r, [])
         \<and> (case getTaskListIdByName pf name cache r of
               (res, cache1, r1, evs) \<Rightarrow> getTaskListIdByName pf name cache1 r1)
             = (Resolved i, cache, r, [])"
  using assms by (simp add: getTaskListIdByName_def jsGet_def)

theorem cache_hit_no_remote_call_witness:
  "(Map.empty((ascii ''Work'') \<mapsto> ListId 76 (ascii ''Work''))) (ascii ''Work'') = Some (ListId 76 (ascii ''Work''))
   \<and> getTaskListIdByName mockTasks (ascii ''Work'') (Map.empty((ascii ''Work'') \<mapsto> ListId 76 (ascii ''Work''))) []
       = (Resolved (ListId 76 (ascii ''Work'')), Map.empty((ascii ''Work'') \<mapsto> ListId 76 (ascii ''Work'')), [], [])"
  using cache_hit_no_remote_call
    [of "Map.empty((ascii ''Work'') \<mapsto> ListId 76 (ascii ''Work''))" "ascii ''Work''" "ListId 76 (ascii ''Work'')"
        mockTasks "[]"]
  by simp

text \<open>
  Once the resolver has returned an identifier for a name, by whatever path, the cache it
  leaves answers the next call for that name.
\<close>

lemma resolver_idempotent:
  assumes "getTaskListIdByName pf name cache r = (Resolved i, cache1, r1, evs)"
  shows "getTaskListIdByName pf name cache1 r2 = (Resolved i, cache1, r2, [])"
proof (cases "jsGet cache name")
  case (Own j)
  with assms show ?thesis
    by (auto simp: getTaskListIdByName_def jsGet_def split: option.splits if_splits)
next
  case Inherited
  with assms show ?thesis by (simp add: getTaskListIdByName_def)
next
  case Absent
  then have np: "name \<noteq> (ascii ''__proto__'')"
    by (auto simp: jsGet_Absent objectPrototypeKeys_def)
  from assms Absent have "cache1 name = Some i"
    by (auto simp: getTaskListIdByName_def jsSet_plain [OF np]
             split: prod.splits js_result.splits option.splits)
  then show ?thesis by (simp add: getTaskListIdByName_def jsGet_def)
qed

text \<open>
  C5, as the claim states it, fails: when the creation of the list \<open>ghost\<close> returns without
  an identifier, the resolver gives up at once. It neither waits nor lists the remote lists.
\<close>

theorem create_without_id_no_fallback:
  "fst (tasklists_insert mockTasks (ascii ''ghost'') []) = Returned None
   \<and> getTaskListIdByName mockTasks (ascii ''ghost'') (loadCache deletedProperties) []
       = (Null, loadCache deletedProperties, [],
          [Call (CreateList (ascii ''ghost'')), Log (LogListNoId (ascii ''ghost''))])"
  by (simp add: getTaskListIdByName_def jsGet_def mockTasks_def loadCache_def
                deletedProperties_def objectPrototypeKeys_def ascii_def)

text \<open>
  C5, amended. For a name that misses the cache: when the creation of the list throws, the
  resolver waits 2000 ms, lists the remote lists and takes the first list of exactly that
  name; with a match it writes the identifier to the cache and returns it, without one
  (also when the listing throws or has no items) it returns \<open>Null\<close> and leaves the cache as
  it is. When the creation returns without an identifier, the resolver returns \<open>Null\<close>
  at once, without waiting and without listing.
\<close>

theorem create_failure_fallback:
  assumes "jsGet cache name = Absent"
  shows "(tasklists_insert pf name r = (Threw, r1) \<longrightarrow> tasklists_list pf r1 = (res, r2) \<longrightarrow>
            getTaskListIdByName pf name cache r =
              (case firstMatch name res of
                 Some i \<Rightarrow>
                   (Resolved i, cache(name \<mapsto> i), r2,
                    [Call (CreateList name), Log (LogListCreateThrew name), Sleep 2000,
                     Call ListAll, Log (LogListFound name)])
               | None \<Rightarrow>
                   (Null, cache, r2,
                    [Call (CreateList name), Log (LogListCreateThrew name), Sleep 2000,
                     Call ListAll,
                     Log (if res = Threw then LogRefetchFailed else LogListNotFound name)])))
         \<and> (tasklists_insert pf name r = (Returned None, r1) \<longrightarrow>
              getTaskListIdByName pf name cache r =
                (Null, cache, r1, [Call (CreateList name), Log (LogListNoId name)]))"
proof -
  from assms have np: "name \<noteq> (ascii ''__proto__'')"
    by (auto simp: jsGet_Absent objectPrototypeKeys_def)
  show ?thesis
    using assms
    by (auto simp: getTaskListIdByName_def firstMatch_def jsSet_plain [OF np]
             split: js_result.splits option.splits)
qed

theorem create_failure_fallback_witness:
  "jsGet (loadCache deletedProperties) (ascii ''locked'') = Absent
   \<and> tasklists_insert mockTasks (ascii ''locked'') [(ascii ''locked'', ListId 88 (ascii ''1''))]
       = (Threw, [(ascii ''locked'', ListId 88 (ascii ''1''))])
   \<and> tasklists_list mockTasks [(ascii ''locked'', ListId 88 (ascii ''1''))]
       = (Returned (Some [(ascii ''locked'', ListId 88 (ascii ''1''))]), [(ascii ''locked'', ListId 88 (ascii ''1''))])
   \<and> getTaskListIdByName mockTasks (ascii ''locked'') (loadCache deletedProperties)
         [(ascii ''locked'', ListId 88 (ascii ''1''))]
       = (Resolved (ListId 88 (ascii ''1'')),
          (loadCache deletedProperties)((ascii ''locked'') \<mapsto> ListId 88 (ascii ''1'')),
          [(ascii ''locked'', ListId 88 (ascii ''1''))],
          [Call (CreateList (ascii ''locked'')), Log (LogListCreateThrew (ascii ''locked'')), Sleep 2000,
           Call ListAll, Log (LogListFound (ascii ''locked''))])
   \<and> jsGet (loadCache deletedProperties) (ascii ''ghost'') = Absent
   \<and> tasklists_insert mockTasks (ascii ''ghost'') [] = (Returned None, [])
   \<and> getTaskListIdByName mockTasks (ascii ''ghost'') (loadCache deletedProperties) []
       = (Null, loadCache deletedProperties, [],
          [Call (CreateList (ascii ''ghost'')), Log (LogListNoId (ascii ''ghost''))])"
proof -
  have a: "jsGet (loadCache deletedProperties) (ascii ''locked'') = Absent"
    and b: "jsGet (loadCache deletedProperties) (ascii ''ghost'') = Absent"
    by (simp_all add: jsGet_def loadCache_def deletedProperties_def objectPrototypeKeys_def
                      ascii_def)
  have c: "tasklists_insert mockTasks (ascii ''locked'') [(ascii ''locked'', ListId 88 (ascii ''1''))]
             = (Threw, [(ascii ''locked'', ListId 88 (ascii ''1''))])"
    and d: "tasklists_list mockTasks [(ascii ''locked'', ListId 88 (ascii ''1''))]
             = (Returned (Some [(ascii ''locked'', ListId 88 (ascii ''1''))]), [(ascii ''locked'', ListId 88 (ascii ''1''))])"
    and e: "tasklists_insert mockTasks (ascii ''ghost'') [] = (Returned None, [])"
    by (simp_all add: mockTasks_def ascii_def)
  from create_failure_fallback [OF a, of mockTasks] c d
  have "getTaskListIdByName mockTasks (ascii ''locked'') (loadCache deletedProperties)
         [(ascii ''locked'', ListId 88 (ascii ''1''))]
       = (Resolved (ListId 88 (ascii ''1'')),
          (loadCache deletedProperties)((ascii ''locked'') \<mapsto> ListId 88 (ascii ''1'')),
          [(ascii ''locked'', ListId 88 (ascii ''1''))],
          [Call (CreateList (ascii ''locked'')), Log (LogListCreateThrew (ascii ''locked'')), Sleep 2000,
           Call ListAll, Log (LogListFound (ascii ''locked''))])"
    by (simp add: firstMatch_def)
  moreover from create_failure_fallback [OF b, of mockTasks] e
  have "getTaskListIdByName mockTasks (ascii ''ghost'') (loadCache deletedProperties) []
       = (Null, loadCache deletedProperties, [],
          [Call (CreateList (ascii ''ghost'')), Log (LogListNoId (ascii ''ghost''))])"
    by simp
  ultimately show ?thesis using a b c d e by simp
qed

section \<open>The notes of a task\<close>

text \<open>
  C6. The claim holds in the single-pass exporter and fails in the batch exporter: for a
  row whose links cell is the marker \<open>starred\<close>, the batch exporter submits a task with the
  notes \<open>Link: starred\<close>, where the single-pass exporter sets no notes. Row 3 of the demo
  sheet is such a row.
\<close>

theorem batch_exporter_notes_of_starred:
  "map notes' (submittedTasks (snd (snd (continueProcess mockTasks demoSpreadsheet demoHost))))
     = [Some (ascii ''Link: http://x''), Some (ascii ''Link: starred''), None, None]
   \<and> createTasksFromSheet_notes (CStr (ascii ''starred'')) = None
   \<and> createTasksFromSheet_notes (CStr (ascii ''http://x'')) = Some (ascii ''Link: http://x'')"
  by (simp add: eval_defs Let_def createTasksFromSheet_notes_def)

section \<open>Auxiliary facts about a batch\<close>

lemma refreshCache_events:
  "rowsLogged (snd (snd (refreshCache pf cache r))) = []
   \<and> submittedTasks (snd (snd (refreshCache pf cache r))) = []"
  by (simp add: refreshCache_def split: prod.splits js_result.splits option.splits)

lemma rowsToProcess_pos:
  assumes "batchRuns b ss h sheet cols"
  shows "0 < rowsToProcess b sheet h"
  using assms by (simp add: batchRuns_def rowsToProcess_def)

lemma length_batchRows:
  assumes "batchRuns b ss h sheet cols"
  shows "length (batchRows b sheet h) = rowsToProcess b sheet h"
proof -
  have "0 < loadStartRow (properties h)"
    by (simp add: loadStartRow_def split: option.splits)
  with assms show ?thesis
    by (auto simp: batchRuns_def batchRows_def rowsToProcess_def getValues_def getLastRow_def)
qed

text \<open>What an execution that runs a batch returns, in terms of the loop over its rows.\<close>

lemma continueProcessWith_batch:
  assumes "batchRuns b ss h sheet cols"
  shows "continueProcessWith b pf ss h =
     (case processRows pf cols (loadStartRow (properties h)) (batchRows b sheet h)
             (initialLoopState pf h) of
        (st, evs) \<Rightarrow>
          (Rescheduled,
           \<lparr> properties =
               (properties h)
                 \<lparr> PROPERTY_ROW := Some (loadStartRow (properties h) + rowsToProcess b sheet h),
                   PROPERTY_CACHE := Some (taskListCache st),
                   PROPERTY_REPORT := Some (reportData st),
                   PROPERTY_LIST :=
                     (if truthyStr (lastKnownListTitle st)
                      then lastKnownListTitle st
                      else PROPERTY_LIST (properties h)) \<rparr>,
             triggers = createTrigger (triggers h),
             service = remote st \<rparr>,
           Log (LogStarting (the (PROPERTY_SHEET_NAME (properties h))) (loadStartRow (properties h)))
             # snd (snd (refreshCache pf (loadCache (properties h)) (service h))) @ evs
             @ [Log (LogBatchDone (loadStartRow (properties h) + rowsToProcess b sheet h))]))"
proof -
  from assms obtain name where n: "PROPERTY_SHEET_NAME (properties h) = Some name" "name \<noteq> []"
      "ss name = Some sheet"
    and c: "findColumns (getHeaders sheet) = Some cols"
    and s: "loadStartRow (properties h) \<le> getLastRow sheet"
    and b: "0 < b"
    by (auto simp: batchRuns_def)
  have k: "\<And>m. (min b (Suc m) = 0) = False"
    using b by (simp add: min_def)
  show ?thesis
    using n c s
    by (simp add: k continueProcessWith_def processBatch_def initialLoopState_def batchRows_def
                  rowsToProcess_def Let_def
             split: prod.splits)
qed

lemma continueProcessWith_result:
  assumes "batchRuns b ss h sheet cols"
  shows "fst (continueProcessWith b pf ss h) = Rescheduled"
  using continueProcessWith_batch [OF assms, of pf] by (simp split: prod.splits)

lemma continueProcessWith_properties:
  assumes "batchRuns b ss h sheet cols"
    and "st = fst (processRows pf cols (loadStartRow (properties h)) (batchRows b sheet h)
                    (initialLoopState pf h))"
  shows "properties (fst (snd (continueProcessWith b pf ss h))) =
           (properties h)
             \<lparr> PROPERTY_ROW := Some (loadStartRow (properties h) + rowsToProcess b sheet h),
               PROPERTY_CACHE := Some (taskListCache st),
               PROPERTY_REPORT := Some (reportData st),
               PROPERTY_LIST :=
                 (if truthyStr (lastKnownListTitle st)
                  then lastKnownListTitle st
                  else PROPERTY_LIST (properties h)) \<rparr>"
    and "service (fst (snd (continueProcessWith b pf ss h))) = remote st"
    and "triggers (fst (snd (continueProcessWith b pf ss h))) = createTrigger (triggers h)"
  using continueProcessWith_batch [OF assms(1), of pf] assms(2)
  by (simp_all split: prod.splits)



section \<open>The cursor\<close>


lemma loadStartRow_pos: "0 < loadStartRow p"
  by (simp add: loadStartRow_def split: option.splits)




section \<open>The loop body, case by case\<close>

text \<open>The three ways in which the loop body ends for a row that reaches the resolver.\<close>

lemma submitTask_cases:
  assumes g: "getTaskListIdByName pf name (taskListCache st) (remote st) = (res, cacheA, ra, evs)"
  shows "(res = Null \<longrightarrow>
            submitTask pf cols n row name ttl st
              = (st\<lparr>taskListCache := cacheA, remote := ra\<rparr>, evs @ [Log (LogRowNoId n name)]))
       \<and> (res \<noteq> Null \<longrightarrow> insertTask pf (buildTask pf cols row ttl) res ra = (Threw, rb) \<longrightarrow>
            submitTask pf cols n row name ttl st
              = (st\<lparr>taskListCache := cacheA, remote := rb\<rparr>,
                 evs @ [Call (CreateTask (buildTask pf cols row ttl) res), Log (LogRowFailed n ttl)]))
       \<and> (res \<noteq> Null \<longrightarrow> insertTask pf (buildTask pf cols row ttl) res ra = (Returned u, rb) \<longrightarrow>
            submitTask pf cols n row name ttl st
              = (st\<lparr>taskListCache := cacheA, remote := rb,
                    reportData := bumpReport name (buildTask pf cols row ttl) (reportData st)\<rparr>,
                 evs @ [Call (CreateTask (buildTask pf cols row ttl) res),
                        Log (LogRowCreated n ttl name), Sleep API_DELAY_MS]))"
  using g by (simp add: submitTask_def Let_def)

text \<open>A row with a list name and a title that is no list definition reaches the resolver.\<close>

lemma processRow_task_row:
  assumes "effectiveListTitle cols row (lastKnownListTitle st) = Some name" and "name \<noteq> []"
    and "finalTaskTitle cols row = Some ttl" and "ttl \<noteq> []"
    and "\<not> startsWith (toLowerCase ttl) (ascii ''list:'')"
  shows "processRow pf cols n row st
           = submitTask pf cols n row name ttl (st\<lparr>lastKnownListTitle := Some name\<rparr>)"
  using assms by (simp add: processRow_def Let_def)

lemma processRow_empty_title:
  assumes "\<not> truthyStr (finalTaskTitle cols row)"
  shows "processRow pf cols n row st
           = (st\<lparr>lastKnownListTitle := effectiveListTitle cols row (lastKnownListTitle st)\<rparr>,
              [Log (if truthyStr (effectiveListTitle cols row (lastKnownListTitle st))
                    then LogRowEmpty n else LogRowNoList n)])"
  using assms by (auto simp: processRow_def Let_def split: option.splits)

text \<open>
  What the loop body does for a row that reaches the resolver, by the answer of the
  resolver: with an identifier the task goes to \<^verbatim>\<open>Tasks.Tasks.insert\<close> for that list, and
  the answer of the service decides what is logged and counted.
\<close>

lemma processRow_resolved:
  assumes eff: "effectiveListTitle cols row (lastKnownListTitle st) = Some name" "name \<noteq> []"
    and ft: "finalTaskTitle cols row = Some ttl" "ttl \<noteq> []"
    and nl: "\<not> startsWith (toLowerCase ttl) (ascii ''list:'')"
    and g: "getTaskListIdByName pf name (taskListCache st) (remote st) = (Resolved lid, cacheA, ra, evs)"
  shows "processRow pf cols n row st =
           (case tasks_insert pf (buildTask pf cols row ttl) lid ra of
              (Returned u, rb) \<Rightarrow>
                (st\<lparr>lastKnownListTitle := Some name, taskListCache := cacheA, remote := rb,
                    reportData := bumpReport name (buildTask pf cols row ttl) (reportData st)\<rparr>,
                 evs @ [Call (CreateTask (buildTask pf cols row ttl) (Resolved lid)),
                        Log (LogRowCreated n ttl name), Sleep API_DELAY_MS])
            | (Threw, rb) \<Rightarrow>
                (st\<lparr>lastKnownListTitle := Some name, taskListCache := cacheA, remote := rb\<rparr>,
                 evs @ [Call (CreateTask (buildTask pf cols row ttl) (Resolved lid)),
                        Log (LogRowFailed n ttl)]))"
proof -
  let ?st = "st\<lparr>lastKnownListTitle := Some name\<rparr>"
  from g have g': "getTaskListIdByName pf name (taskListCache ?st) (remote ?st)
                     = (Resolved lid, cacheA, ra, evs)"
    by simp
  have "submitTask pf cols n row name ttl ?st =
           (case tasks_insert pf (buildTask pf cols row ttl) lid ra of
              (Returned u, rb) \<Rightarrow>
                (st\<lparr>lastKnownListTitle := Some name, taskListCache := cacheA, remote := rb,
                    reportData := bumpReport name (buildTask pf cols row ttl) (reportData st)\<rparr>,
                 evs @ [Call (CreateTask (buildTask pf cols row ttl) (Resolved lid)),
                        Log (LogRowCreated n ttl name), Sleep API_DELAY_MS])
            | (Threw, rb) \<Rightarrow>
                (st\<lparr>lastKnownListTitle := Some name, taskListCache := cacheA, remote := rb\<rparr>,
                 evs @ [Call (CreateTask (buildTask pf cols row ttl) (Resolved lid)),
                        Log (LogRowFailed n ttl)]))"
    using g' by (simp add: submitTask_def insertTask_def Let_def split: prod.splits js_result.splits)
  with processRow_task_row [OF eff ft nl, of pf n] show ?thesis by simp
qed

lemma processRow_unresolved:
  assumes eff: "effectiveListTitle cols row (lastKnownListTitle st) = Some name" "name \<noteq> []"
    and ft: "finalTaskTitle cols row = Some ttl" "ttl \<noteq> []"
    and nl: "\<not> startsWith (toLowerCase ttl) (ascii ''list:'')"
    and g: "getTaskListIdByName pf name (taskListCache st) (remote st) = (Null, cacheA, ra, evs)"
  shows "processRow pf cols n row st =
           (st\<lparr>lastKnownListTitle := Some name, taskListCache := cacheA, remote := ra\<rparr>,
            evs @ [Log (LogRowNoId n name)])"
proof -
  let ?st = "st\<lparr>lastKnownListTitle := Some name\<rparr>"
  from g have g': "getTaskListIdByName pf name (taskListCache ?st) (remote ?st)
                     = (Null, cacheA, ra, evs)"
    by simp
  from submitTask_cases [OF g', where cols=cols and row=row and ttl=ttl and n=n]
  have "submitTask pf cols n row name ttl ?st =
           (st\<lparr>lastKnownListTitle := Some name, taskListCache := cacheA, remote := ra\<rparr>,
            evs @ [Log (LogRowNoId n name)])"
    by simp
  with processRow_task_row [OF eff ft nl, of pf n] show ?thesis by simp
qed

section \<open>The list name in effect\<close>

lemma listMarker_nonempty: "listMarker cols row = Some m \<Longrightarrow> m \<noteq> []"
  by (auto simp: listMarker_def Let_def split: if_splits)

lemma loadLastKnownListTitle_truthy:
  "loadLastKnownListTitle p = None \<or> truthyStr (loadLastKnownListTitle p)"
  by (simp add: loadLastKnownListTitle_def split: option.splits)

lemma mostRecentMarker_truthy:
  assumes "lk = None \<or> truthyStr lk"
  shows "mostRecentMarker cols lk rows = None \<or> truthyStr (mostRecentMarker cols lk rows)"
proof (cases "List.map_filter (listMarker cols) rows = []")
  case True
  with assms show ?thesis by (simp add: mostRecentMarker_alt)
next
  case False
  then have "last (List.map_filter (listMarker cols) rows) \<in> set (List.map_filter (listMarker cols) rows)"
    by simp
  then obtain row where "listMarker cols row = Some (last (List.map_filter (listMarker cols) rows))"
    by (auto simp: List.map_filter_def)
  from listMarker_nonempty [OF this] False show ?thesis
    by (simp add: mostRecentMarker_alt)
qed

lemma mostRecentMarker_None:
  assumes "mostRecentMarker cols lk rows = None"
  shows "lk = None"
  using assms by (simp add: mostRecentMarker_alt split: if_splits)

text \<open>The list title that an execution persists is the one the loop ended with.\<close>

lemma persisted_lastKnown:
  assumes "batchRuns b ss h sheet cols"
  shows "loadLastKnownListTitle (properties (fst (snd (continueProcessWith b pf ss h))))
           = mostRecentMarker cols (loadLastKnownListTitle (properties h)) (batchRows b sheet h)"
proof -
  let ?lk0 = "loadLastKnownListTitle (properties h)"
  define st where "st = fst (processRows pf cols (loadStartRow (properties h)) (batchRows b sheet h)
                               (initialLoopState pf h))"
  have lk0: "lastKnownListTitle (initialLoopState pf h) = ?lk0"
    by (simp add: initialLoopState_def split: prod.splits)
  have lk: "lastKnownListTitle st = mostRecentMarker cols ?lk0 (batchRows b sheet h)"
    by (simp add: st_def processRows_lastKnown lk0)
  have p: "PROPERTY_LIST (properties (fst (snd (continueProcessWith b pf ss h))))
             = (if truthyStr (lastKnownListTitle st) then lastKnownListTitle st
                else PROPERTY_LIST (properties h))"
    using continueProcessWith_properties(1) [OF assms st_def] by simp
  show ?thesis
  proof (cases "truthyStr (lastKnownListTitle st)")
    case True
    then obtain s where ls: "lastKnownListTitle st = Some s" "s \<noteq> []"
      by (cases "lastKnownListTitle st") auto
    from p True have "PROPERTY_LIST (properties (fst (snd (continueProcessWith b pf ss h))))
                        = lastKnownListTitle st"
      by simp
    with ls have "loadLastKnownListTitle (properties (fst (snd (continueProcessWith b pf ss h))))
                    = lastKnownListTitle st"
      by (simp add: loadLastKnownListTitle_def)
    then show ?thesis unfolding lk .
  next
    case False
    have "mostRecentMarker cols ?lk0 (batchRows b sheet h) = None
            \<or> truthyStr (mostRecentMarker cols ?lk0 (batchRows b sheet h))"
      by (rule mostRecentMarker_truthy [OF loadLastKnownListTitle_truthy])
    with lk False have none: "mostRecentMarker cols ?lk0 (batchRows b sheet h) = None" by auto
    from mostRecentMarker_None [OF none] have "?lk0 = None" .
    from p False have "PROPERTY_LIST (properties (fst (snd (continueProcessWith b pf ss h))))
                         = PROPERTY_LIST (properties h)"
      by simp
    then have "loadLastKnownListTitle (properties (fst (snd (continueProcessWith b pf ss h)))) = ?lk0"
      by (simp add: loadLastKnownListTitle_def)
    with \<open>?lk0 = None\<close> none show ?thesis by simp
  qed
qed

lemma submitTask_names:
  assumes "Log (LogRowCreated m ttl' name') \<in> set (snd (submitTask pf cols n row name ttl st))
           \<or> Log (LogRowNoId m name') \<in> set (snd (submitTask pf cols n row name ttl st))"
  shows "name' = name"
proof -
  obtain res cache1 r1 evs where g:
    "getTaskListIdByName pf name (taskListCache st) (remote st) = (res, cache1, r1, evs)"
    by (metis prod_cases4)
  have "Log (LogRowCreated m ttl' name') \<notin> set evs" "Log (LogRowNoId m name') \<notin> set evs"
    using g
    by (auto simp: getTaskListIdByName_def
             split: member.splits prod.splits js_result.splits option.splits)
  with assms g show ?thesis
    by (auto simp: submitTask_def Let_def split: prod.splits js_result.splits if_splits)
qed

lemma processRow_names:
  assumes "Log (LogRowCreated m ttl name) \<in> set (snd (processRow pf cols n row st))
           \<or> Log (LogRowNoId m name) \<in> set (snd (processRow pf cols n row st))"
  shows "effectiveListTitle cols row (lastKnownListTitle st) = Some name"
  using assms
  by (auto simp: processRow_def Let_def split: option.splits if_splits
           dest: submitTask_names [OF disjI1] submitTask_names [OF disjI2])

lemma processRow_no_list:
  assumes "\<not> truthyStr (effectiveListTitle cols row (lastKnownListTitle st))"
  shows "processRow pf cols n row st
           = (st\<lparr>lastKnownListTitle := effectiveListTitle cols row (lastKnownListTitle st)\<rparr>,
              [Log (LogRowNoList n)])"
  using assms by (auto simp: processRow_def Let_def split: option.splits)

lemma rowOfLog_mem:
  assumes "Log l \<in> set evs" and "rowOfLog l = Some n"
  shows "n \<in> set (rowsLogged evs)"
  using assms by (induction evs) (auto split: option.splits)

lemma snd_processRows_append:
  "snd (processRows pf cols n (xs @ ys) st) =
     snd (processRows pf cols n xs st)
       @ snd (processRows pf cols (n + length xs) ys (fst (processRows pf cols n xs st)))"
  by (simp add: processRows_append split: prod.splits)

lemma snd_processRows_Cons:
  "snd (processRows pf cols n (row # rows) st) =
     snd (processRow pf cols n row st)
       @ snd (processRows pf cols (Suc n) rows (fst (processRow pf cols n row st)))"
  by (simp split: prod.splits)

text \<open>The log lines of a row of a batch are those that the loop body writes for that row.\<close>

lemma processRows_row_events:
  assumes j: "j < length rows" and l: "rowOfLog l = Some (s + j)"
  shows "Log l \<in> set (snd (processRows pf cols s rows st))
         \<longleftrightarrow> Log l \<in> set (snd (processRow pf cols (s + j) (rows ! j)
                                   (fst (processRows pf cols s (take j rows) st))))"
proof -
  let ?sj = "fst (processRows pf cols s (take j rows) st)"
  let ?A = "snd (processRows pf cols s (take j rows) st)"
  let ?R = "snd (processRow pf cols (s + j) (rows ! j) ?sj)"
  let ?B = "snd (processRows pf cols (Suc (s + j)) (drop (Suc j) rows)
                   (fst (processRow pf cols (s + j) (rows ! j) ?sj)))"
  have rows: "rows = take j rows @ rows ! j # drop (Suc j) rows"
    using j by (rule id_take_nth_drop)
  have len: "length (take j rows) = j" using j by simp
  have "snd (processRows pf cols s (take j rows @ rows ! j # drop (Suc j) rows) st) = ?A @ ?R @ ?B"
    by (simp only: snd_processRows_append snd_processRows_Cons len)
  with rows have ev: "snd (processRows pf cols s rows st) = ?A @ ?R @ ?B" by simp
  have a: "Log l \<notin> set ?A"
  proof
    assume "Log l \<in> set ?A"
    from rowOfLog_mem [OF this l] show False
      by (simp add: processRows_rowsLogged len)
  qed
  have b: "Log l \<notin> set ?B"
  proof
    assume "Log l \<in> set ?B"
    from rowOfLog_mem [OF this l] show False
      by (auto simp: processRows_rowsLogged)
  qed
  from ev a b show ?thesis by simp
qed

lemma submitTask_no_NoList:
  "Log (LogRowNoList m) \<notin> set (snd (submitTask pf cols n row name ttl st))"
proof -
  obtain res cache1 r1 evs where g:
    "getTaskListIdByName pf name (taskListCache st) (remote st) = (res, cache1, r1, evs)"
    by (metis prod_cases4)
  have "Log (LogRowNoList m) \<notin> set evs"
    using g
    by (auto simp: getTaskListIdByName_def
             split: member.splits prod.splits js_result.splits option.splits)
  with g show ?thesis
    by (auto simp: submitTask_def Let_def split: prod.splits js_result.splits if_splits)
qed

lemma processRow_NoList_iff:
  "Log (LogRowNoList n) \<in> set (snd (processRow pf cols n row st))
     \<longleftrightarrow> \<not> truthyStr (effectiveListTitle cols row (lastKnownListTitle st))"
proof
  assume "\<not> truthyStr (effectiveListTitle cols row (lastKnownListTitle st))"
  from processRow_no_list [OF this, of pf n]
  show "Log (LogRowNoList n) \<in> set (snd (processRow pf cols n row st))" by simp
next
  assume "Log (LogRowNoList n) \<in> set (snd (processRow pf cols n row st))"
  then show "\<not> truthyStr (effectiveListTitle cols row (lastKnownListTitle st))"
    using submitTask_no_NoList [of n pf cols n row]
    by (auto simp: processRow_def Let_def split: option.splits if_splits)
qed

text \<open>The row-level log lines of an execution are those of its loop.\<close>

lemma continueProcessWith_row_events:
  assumes br: "batchRuns b ss h sheet cols" and l: "rowOfLog l = Some n"
  shows "Log l \<in> set (snd (snd (continueProcessWith b pf ss h)))
         \<longleftrightarrow> Log l \<in> set (snd (processRows pf cols (loadStartRow (properties h))
                                   (batchRows b sheet h) (initialLoopState pf h)))"
proof -
  have "Log l \<notin> set (snd (snd (refreshCache pf (loadCache (properties h)) (service h))))"
  proof
    assume "Log l \<in> set (snd (snd (refreshCache pf (loadCache (properties h)) (service h))))"
    from rowOfLog_mem [OF this l] show False
      by (simp add: refreshCache_events)
  qed
  with l show ?thesis
    using continueProcessWith_batch [OF br, of pf]
    by (auto split: prod.splits)
qed

lemma mostRecentMarker_append:
  "mostRecentMarker cols (mostRecentMarker cols lk xs) ys = mostRecentMarker cols lk (xs @ ys)"
  by (simp add: mostRecentMarker_alt map_filter_append)

text \<open>
  The list name under which the log of an execution reports a row, and the rows that it
  reports as skipped for want of a list name.
\<close>

lemma execution_names:
  assumes br: "batchRuns b ss h sheet cols" and j: "j < length (batchRows b sheet h)"
  shows "Log (LogRowNoList (loadStartRow (properties h) + j))
             \<in> set (snd (snd (continueProcessWith b pf ss h)))
           \<longleftrightarrow> \<not> truthyStr (mostRecentMarker cols (loadLastKnownListTitle (properties h))
                               (take (Suc j) (batchRows b sheet h)))"
    and "Log (LogRowCreated (loadStartRow (properties h) + j) ttl name)
             \<in> set (snd (snd (continueProcessWith b pf ss h)))
           \<or> Log (LogRowNoId (loadStartRow (properties h) + j) name)
             \<in> set (snd (snd (continueProcessWith b pf ss h)))
         \<Longrightarrow> mostRecentMarker cols (loadLastKnownListTitle (properties h))
               (take (Suc j) (batchRows b sheet h)) = Some name"
proof -
  let ?s = "loadStartRow (properties h)" and ?rows = "batchRows b sheet h"
  let ?lk = "loadLastKnownListTitle (properties h)"
  let ?sj = "fst (processRows pf cols ?s (take j ?rows) (initialLoopState pf h))"
  have lk0: "lastKnownListTitle (initialLoopState pf h) = ?lk"
    by (simp add: initialLoopState_def split: prod.splits)
  have "effectiveListTitle cols (?rows ! j) (lastKnownListTitle ?sj)
          = mostRecentMarker cols ?lk (take j ?rows @ [?rows ! j])"
    by (simp add: mostRecentMarker_snoc processRows_lastKnown lk0)
  with j have eff: "effectiveListTitle cols (?rows ! j) (lastKnownListTitle ?sj)
          = mostRecentMarker cols ?lk (take (Suc j) ?rows)"
    by (simp add: take_Suc_conv_app_nth)
  have ev: "Log l \<in> set (snd (snd (continueProcessWith b pf ss h)))
              \<longleftrightarrow> Log l \<in> set (snd (processRow pf cols (?s + j) (?rows ! j) ?sj))"
    if "rowOfLog l = Some (?s + j)" for l
    using continueProcessWith_row_events [OF br that, of pf]
      processRows_row_events [OF j that, of pf cols "initialLoopState pf h"]
    by simp
  show "Log (LogRowNoList (?s + j)) \<in> set (snd (snd (continueProcessWith b pf ss h)))
           \<longleftrightarrow> \<not> truthyStr (mostRecentMarker cols ?lk (take (Suc j) ?rows))"
    using ev [of "LogRowNoList (?s + j)"] processRow_NoList_iff [of "?s + j" pf cols "?rows ! j" ?sj]
    by (simp add: eff)
  assume "Log (LogRowCreated (?s + j) ttl name) \<in> set (snd (snd (continueProcessWith b pf ss h)))
           \<or> Log (LogRowNoId (?s + j) name) \<in> set (snd (snd (continueProcessWith b pf ss h)))"
  with ev [of "LogRowCreated (?s + j) ttl name"] ev [of "LogRowNoId (?s + j) name"]
  have "Log (LogRowCreated (?s + j) ttl name) \<in> set (snd (processRow pf cols (?s + j) (?rows ! j) ?sj))
           \<or> Log (LogRowNoId (?s + j) name) \<in> set (snd (processRow pf cols (?s + j) (?rows ! j) ?sj))"
    by simp
  from processRow_names [OF this] show "mostRecentMarker cols ?lk (take (Suc j) ?rows) = Some name"
    by (simp add: eff)
qed

text \<open>
  C2. The list name in effect at a row, which the loop uses as the name of the row's task
  list, is the most recent list marker among the rows up to and including this one, or
  the name carried into the loop when none of them has a marker. It is the name in every
  log line of a task created or a list not resolved for the row, and it is the name that
  the resolver is asked for: the task of the row goes to the list that the resolver returns
  for it. When there is no such name the row is skipped: the row is logged and nothing
  else happens.

  The name survives the end of a batch. An execution of \<^verbatim>\<open>continueProcess\<close> starts its loop
  with the name that it loads from the checkpoint, so that in its log every row is reported
  under the most recent marker among the loaded name and the rows of the batch up to that
  row, and is reported as skipped for want of a list name exactly when there is none. The
  name it stores is the one its loop ended with. Hence, in the execution that follows, a
  row is processed under the most recent marker of the rows of the batch before and of the
  rows up to it: a first row without a marker uses the last name of the batch before.
\<close>

theorem list_name_carried_forward:
  "effectiveListTitle cols row (lastKnownListTitle (fst (processRows pf cols n pre st)))
     = mostRecentMarker cols (lastKnownListTitle st) (pre @ [row])
   \<and> (Log (LogRowCreated m ttl name)
          \<in> set (snd (processRow pf cols m row (fst (processRows pf cols n pre st))))
        \<or> Log (LogRowNoId m name)
          \<in> set (snd (processRow pf cols m row (fst (processRows pf cols n pre st))))
       \<longrightarrow> mostRecentMarker cols (lastKnownListTitle st) (pre @ [row]) = Some name)
   \<and> (\<not> truthyStr (mostRecentMarker cols (lastKnownListTitle st) (pre @ [row]))
       \<longrightarrow> snd (processRow pf cols m row (fst (processRows pf cols n pre st)))
             = [Log (LogRowNoList m)]
           \<and> taskListCache (fst (processRow pf cols m row (fst (processRows pf cols n pre st))))
             = taskListCache (fst (processRows pf cols n pre st))
           \<and> reportData (fst (processRow pf cols m row (fst (processRows pf cols n pre st))))
             = reportData (fst (processRows pf cols n pre st))
           \<and> remote (fst (processRow pf cols m row (fst (processRows pf cols n pre st))))
             = remote (fst (processRows pf cols n pre st)))
   \<and> (mostRecentMarker cols (lastKnownListTitle st) (pre @ [row]) = Some nm \<longrightarrow> nm \<noteq> [] \<longrightarrow>
       finalTaskTitle cols row = Some t \<longrightarrow> t \<noteq> [] \<longrightarrow>
       \<not> startsWith (toLowerCase t) (ascii ''list:'') \<longrightarrow>
         (getTaskListIdByName pf nm (taskListCache (fst (processRows pf cols n pre st)))
              (remote (fst (processRows pf cols n pre st))) = (Resolved lid, cacheA, ra, evs) \<longrightarrow>
            processRow pf cols m row (fst (processRows pf cols n pre st)) =
              (case tasks_insert pf (buildTask pf cols row t) lid ra of
                 (Returned u, rb) \<Rightarrow>
                   ((fst (processRows pf cols n pre st))
                      \<lparr>lastKnownListTitle := Some nm, taskListCache := cacheA, remote := rb,
                       reportData := bumpReport nm (buildTask pf cols row t)
                                       (reportData (fst (processRows pf cols n pre st)))\<rparr>,
                    evs @ [Call (CreateTask (buildTask pf cols row t) (Resolved lid)),
                           Log (LogRowCreated m t nm), Sleep API_DELAY_MS])
               | (Threw, rb) \<Rightarrow>
                   ((fst (processRows pf cols n pre st))
                      \<lparr>lastKnownListTitle := Some nm, taskListCache := cacheA, remote := rb\<rparr>,
                    evs @ [Call (CreateTask (buildTask pf cols row t) (Resolved lid)),
                           Log (LogRowFailed m t)])))
         \<and> (getTaskListIdByName pf nm (taskListCache (fst (processRows pf cols n pre st)))
              (remote (fst (processRows pf cols n pre st))) = (Null, cacheA, ra, evs) \<longrightarrow>
            processRow pf cols m row (fst (processRows pf cols n pre st)) =
              ((fst (processRows pf cols n pre st))
                 \<lparr>lastKnownListTitle := Some nm, taskListCache := cacheA, remote := ra\<rparr>,
               evs @ [Log (LogRowNoId m nm)])))
   \<and> (batchRuns b ss h sheet cols \<longrightarrow>
         loadLastKnownListTitle (properties (fst (snd (continueProcessWith b pf ss h))))
           = mostRecentMarker cols (loadLastKnownListTitle (properties h)) (batchRows b sheet h)
         \<and> (\<forall>j < length (batchRows b sheet h).
              (Log (LogRowNoList (loadStartRow (properties h) + j))
                   \<in> set (snd (snd (continueProcessWith b pf ss h)))
                 \<longleftrightarrow> \<not> truthyStr (mostRecentMarker cols (loadLastKnownListTitle (properties h))
                                     (take (Suc j) (batchRows b sheet h))))
              \<and> (\<forall>t' nm'.
                    Log (LogRowCreated (loadStartRow (properties h) + j) t' nm')
                        \<in> set (snd (snd (continueProcessWith b pf ss h)))
                      \<or> Log (LogRowNoId (loadStartRow (properties h) + j) nm')
                        \<in> set (snd (snd (continueProcessWith b pf ss h)))
                    \<longrightarrow> mostRecentMarker cols (loadLastKnownListTitle (properties h))
                          (take (Suc j) (batchRows b sheet h)) = Some nm')))
   \<and> (batchRuns b ss h sheet cols \<longrightarrow>
       batchRuns b2 ss (fst (snd (continueProcessWith b pf ss h))) sheet cols \<longrightarrow>
         (\<forall>j < length (batchRows b2 sheet (fst (snd (continueProcessWith b pf ss h)))).
            (Log (LogRowNoList (loadStartRow (properties (fst (snd (continueProcessWith b pf ss h)))) + j))
                 \<in> set (snd (snd (continueProcessWith b2 pf ss (fst (snd (continueProcessWith b pf ss h))))))
               \<longleftrightarrow> \<not> truthyStr
                       (mostRecentMarker cols (loadLastKnownListTitle (properties h))
                          (batchRows b sheet h
                             @ take (Suc j) (batchRows b2 sheet (fst (snd (continueProcessWith b pf ss h)))))))
            \<and> (\<forall>t' nm'.
                  Log (LogRowCreated (loadStartRow (properties (fst (snd (continueProcessWith b pf ss h)))) + j) t' nm')
                      \<in> set (snd (snd (continueProcessWith b2 pf ss (fst (snd (continueProcessWith b pf ss h))))))
                    \<or> Log (LogRowNoId (loadStartRow (properties (fst (snd (continueProcessWith b pf ss h)))) + j) nm')
                      \<in> set (snd (snd (continueProcessWith b2 pf ss (fst (snd (continueProcessWith b pf ss h))))))
                  \<longrightarrow> mostRecentMarker cols (loadLastKnownListTitle (properties h))
                        (batchRows b sheet h
                           @ take (Suc j) (batchRows b2 sheet (fst (snd (continueProcessWith b pf ss h)))))
                      = Some nm')))"
proof -
  let ?st = "fst (processRows pf cols n pre st)"
  have eff: "effectiveListTitle cols row (lastKnownListTitle ?st)
               = mostRecentMarker cols (lastKnownListTitle st) (pre @ [row])"
    by (simp add: mostRecentMarker_snoc processRows_lastKnown)
  have names: "Log (LogRowCreated m ttl name) \<in> set (snd (processRow pf cols m row ?st))
        \<or> Log (LogRowNoId m name) \<in> set (snd (processRow pf cols m row ?st))
       \<longrightarrow> mostRecentMarker cols (lastKnownListTitle st) (pre @ [row]) = Some name"
    using processRow_names [of m ttl name pf cols m row ?st] eff by auto
  have skip: "\<not> truthyStr (mostRecentMarker cols (lastKnownListTitle st) (pre @ [row]))
       \<longrightarrow> snd (processRow pf cols m row ?st) = [Log (LogRowNoList m)]
           \<and> taskListCache (fst (processRow pf cols m row ?st)) = taskListCache ?st
           \<and> reportData (fst (processRow pf cols m row ?st)) = reportData ?st
           \<and> remote (fst (processRow pf cols m row ?st)) = remote ?st"
    using processRow_no_list [of cols row ?st pf m] eff by auto
  have used: "mostRecentMarker cols (lastKnownListTitle st) (pre @ [row]) = Some nm \<longrightarrow> nm \<noteq> [] \<longrightarrow>
       finalTaskTitle cols row = Some t \<longrightarrow> t \<noteq> [] \<longrightarrow>
       \<not> startsWith (toLowerCase t) (ascii ''list:'') \<longrightarrow>
         (getTaskListIdByName pf nm (taskListCache ?st) (remote ?st) = (Resolved lid, cacheA, ra, evs) \<longrightarrow>
            processRow pf cols m row ?st =
              (case tasks_insert pf (buildTask pf cols row t) lid ra of
                 (Returned u, rb) \<Rightarrow>
                   (?st\<lparr>lastKnownListTitle := Some nm, taskListCache := cacheA, remote := rb,
                        reportData := bumpReport nm (buildTask pf cols row t) (reportData ?st)\<rparr>,
                    evs @ [Call (CreateTask (buildTask pf cols row t) (Resolved lid)),
                           Log (LogRowCreated m t nm), Sleep API_DELAY_MS])
               | (Threw, rb) \<Rightarrow>
                   (?st\<lparr>lastKnownListTitle := Some nm, taskListCache := cacheA, remote := rb\<rparr>,
                    evs @ [Call (CreateTask (buildTask pf cols row t) (Resolved lid)),
                           Log (LogRowFailed m t)])))
         \<and> (getTaskListIdByName pf nm (taskListCache ?st) (remote ?st) = (Null, cacheA, ra, evs) \<longrightarrow>
            processRow pf cols m row ?st =
              (?st\<lparr>lastKnownListTitle := Some nm, taskListCache := cacheA, remote := ra\<rparr>,
               evs @ [Log (LogRowNoId m nm)]))"
    using processRow_resolved [where cols=cols and row=row and st="?st" and name=nm and ttl=t
                                 and pf=pf and lid=lid and cacheA=cacheA and ra=ra and evs=evs and n=m]
      processRow_unresolved [where cols=cols and row=row and st="?st" and name=nm and ttl=t
                                   and pf=pf and cacheA=cacheA and ra=ra and evs=evs and n=m]
    unfolding eff by blast
  have one: "loadLastKnownListTitle (properties (fst (snd (continueProcessWith b pf ss h))))
           = mostRecentMarker cols (loadLastKnownListTitle (properties h)) (batchRows b sheet h)
         \<and> (\<forall>j < length (batchRows b sheet h).
              (Log (LogRowNoList (loadStartRow (properties h) + j))
                   \<in> set (snd (snd (continueProcessWith b pf ss h)))
                 \<longleftrightarrow> \<not> truthyStr (mostRecentMarker cols (loadLastKnownListTitle (properties h))
                                     (take (Suc j) (batchRows b sheet h))))
              \<and> (\<forall>t' nm'.
                    Log (LogRowCreated (loadStartRow (properties h) + j) t' nm')
                        \<in> set (snd (snd (continueProcessWith b pf ss h)))
                      \<or> Log (LogRowNoId (loadStartRow (properties h) + j) nm')
                        \<in> set (snd (snd (continueProcessWith b pf ss h)))
                    \<longrightarrow> mostRecentMarker cols (loadLastKnownListTitle (properties h))
                          (take (Suc j) (batchRows b sheet h)) = Some nm'))"
    if br: "batchRuns b ss h sheet cols" for b h
    using persisted_lastKnown [OF br, where pf=pf] execution_names [OF br, where pf=pf]
    by blast
  have two: "\<forall>j < length (batchRows b2 sheet (fst (snd (continueProcessWith b pf ss h)))).
            (Log (LogRowNoList (loadStartRow (properties (fst (snd (continueProcessWith b pf ss h)))) + j))
                 \<in> set (snd (snd (continueProcessWith b2 pf ss (fst (snd (continueProcessWith b pf ss h))))))
               \<longleftrightarrow> \<not> truthyStr
                       (mostRecentMarker cols (loadLastKnownListTitle (properties h))
                          (batchRows b sheet h
                             @ take (Suc j) (batchRows b2 sheet (fst (snd (continueProcessWith b pf ss h)))))))
            \<and> (\<forall>t' nm'.
                  Log (LogRowCreated (loadStartRow (properties (fst (snd (continueProcessWith b pf ss h)))) + j) t' nm')
                      \<in> set (snd (snd (continueProcessWith b2 pf ss (fst (snd (continueProcessWith b pf ss h))))))
                    \<or> Log (LogRowNoId (loadStartRow (properties (fst (snd (continueProcessWith b pf ss h)))) + j) nm')
                      \<in> set (snd (snd (continueProcessWith b2 pf ss (fst (snd (continueProcessWith b pf ss h))))))
                  \<longrightarrow> mostRecentMarker cols (loadLastKnownListTitle (properties h))
                        (batchRows b sheet h
                           @ take (Suc j) (batchRows b2 sheet (fst (snd (continueProcessWith b pf ss h)))))
                      = Some nm')"
    if br: "batchRuns b ss h sheet cols"
      and br2: "batchRuns b2 ss (fst (snd (continueProcessWith b pf ss h))) sheet cols"
    using one [OF br2] unfolding persisted_lastKnown [OF br] mostRecentMarker_append
    by blast
  from eff names skip used one [of b h] two show ?thesis by blast
qed


theorem list_name_carried_forward_witness:
  "batchRuns 1 demoSpreadsheet demoHost demoSheet demoColumns
   \<and> batchRuns 2 demoSpreadsheet
        (fst (snd (continueProcessWith 1 mockTasks demoSpreadsheet demoHost))) demoSheet demoColumns
   \<and> batchRows 1 demoSheet demoHost = [demoSheet ! 1]
   \<and> batchRows 2 demoSheet (fst (snd (continueProcessWith 1 mockTasks demoSpreadsheet demoHost)))
       = [demoSheet ! 2, demoSheet ! 3]
   \<and> loadStartRow (properties (fst (snd (continueProcessWith 1 mockTasks demoSpreadsheet demoHost)))) = 3
   \<and> listMarker demoColumns (demoSheet ! 2) = None
   \<and> Log (LogRowCreated 3 (ascii ''t2'') (ascii ''Work''))
        \<in> set (snd (snd (continueProcessWith 2 mockTasks demoSpreadsheet
                           (fst (snd (continueProcessWith 1 mockTasks demoSpreadsheet demoHost))))))
   \<and> mostRecentMarker demoColumns (loadLastKnownListTitle (properties demoHost))
        ([demoSheet ! 1] @ [demoSheet ! 2]) = Some (ascii ''Work'')
   \<and> Log (LogRowNoList 4)
        \<notin> set (snd (snd (continueProcessWith 2 mockTasks demoSpreadsheet
                           (fst (snd (continueProcessWith 1 mockTasks demoSpreadsheet demoHost))))))
   \<and> Log (LogRowCreated 3 (ascii ''t2'') (ascii ''Work''))
        \<in> set (snd (processRow mockTasks demoColumns 3 (demoSheet ! 2)
                      (fst (processRows mockTasks demoColumns 2 [demoSheet ! 1] demoLoopState))))
   \<and> mostRecentMarker demoColumns (lastKnownListTitle demoLoopState) ([demoSheet ! 1] @ [demoSheet ! 2])
       = Some (ascii ''Work'')
   \<and> \<not> truthyStr (mostRecentMarker demoColumns (lastKnownListTitle demoLoopState) ([] @ [demoSheet ! 3]))
   \<and> snd (processRow mockTasks demoColumns 4 (demoSheet ! 3)
             (fst (processRows mockTasks demoColumns 4 [] demoLoopState)))
       = [Log (LogRowNoList 4)]"
proof -
  let ?h1 = "fst (snd (continueProcessWith 1 mockTasks demoSpreadsheet demoHost))"
  let ?evs2 = "snd (snd (continueProcessWith 2 mockTasks demoSpreadsheet ?h1))"
  let ?lk = "loadLastKnownListTitle (properties demoHost)"
  have br1: "batchRuns 1 demoSpreadsheet demoHost demoSheet demoColumns"
    by (simp add: batchRuns_def eval_defs)
  have br2: "batchRuns 2 demoSpreadsheet ?h1 demoSheet demoColumns"
    by (simp add: batchRuns_def eval_defs Let_def)
  have rows1: "batchRows 1 demoSheet demoHost = [demoSheet ! 1]"
    by (simp add: batchRows_def rowsToProcess_def eval_defs)
  have rows2: "batchRows 2 demoSheet ?h1 = [demoSheet ! 2, demoSheet ! 3]"
    by (simp add: batchRows_def rowsToProcess_def eval_defs Let_def)
  have s2: "loadStartRow (properties ?h1) = 3"
    by (simp add: eval_defs Let_def)
  have nomarker: "listMarker demoColumns (demoSheet ! 2) = None"
    by (simp add: listMarker_def eval_defs Let_def)
  have created2: "Log (LogRowCreated 3 (ascii ''t2'') (ascii ''Work'')) \<in> set ?evs2"
    by (simp add: eval_defs Let_def)
  have truthy2: "truthyStr (mostRecentMarker demoColumns ?lk
                              (batchRows 1 demoSheet demoHost @ take (Suc 1) (batchRows 2 demoSheet ?h1)))"
    unfolding rows1 rows2 by (simp add: mostRecentMarker_def listMarker_def eval_defs Let_def)
  have created: "Log (LogRowCreated 3 (ascii ''t2'') (ascii ''Work''))
        \<in> set (snd (processRow mockTasks demoColumns 3 (demoSheet ! 2)
                      (fst (processRows mockTasks demoColumns 2 [demoSheet ! 1] demoLoopState))))"
    by (simp add: eval_defs Let_def)
  have nolist: "\<not> truthyStr (mostRecentMarker demoColumns (lastKnownListTitle demoLoopState) ([] @ [demoSheet ! 3]))"
    by (simp add: mostRecentMarker_def listMarker_def eval_defs Let_def)
  note a = list_name_carried_forward
    [where cols=demoColumns and pf=mockTasks and b=1 and ss=demoSpreadsheet and h=demoHost
       and sheet=demoSheet and ?b2.0=2 and row="demoSheet ! 2" and n=2 and pre="[demoSheet ! 1]"
       and st=demoLoopState and m=3 and ttl="ascii ''t2''" and name="ascii ''Work''"]
  note c = list_name_carried_forward
    [where cols=demoColumns and pf=mockTasks and b=1 and ss=demoSpreadsheet and h=demoHost
       and sheet=demoSheet and ?b2.0=2 and row="demoSheet ! 3" and n=4 and pre="[]"
       and st=demoLoopState and m=4]
  have len: "0 < length (batchRows 2 demoSheet ?h1)" "1 < length (batchRows 2 demoSheet ?h1)"
    unfolding rows2 by simp_all
  from created2 have created2': "Log (LogRowCreated (loadStartRow (properties ?h1) + 0) (ascii ''t2'') (ascii ''Work''))
        \<in> set ?evs2"
    unfolding s2 by simp
  from a br1 br2 len(1) created2'
  have "mostRecentMarker demoColumns ?lk
          (batchRows 1 demoSheet demoHost @ take (Suc 0) (batchRows 2 demoSheet ?h1))
        = Some (ascii ''Work'')"
    by blast
  then have carried: "mostRecentMarker demoColumns ?lk ([demoSheet ! 1] @ [demoSheet ! 2]) = Some (ascii ''Work'')"
    unfolding rows1 rows2 by simp
  from a br1 br2 len(2) truthy2
  have "Log (LogRowNoList (loadStartRow (properties ?h1) + 1)) \<notin> set ?evs2"
    by blast
  then have notskipped: "Log (LogRowNoList 4) \<notin> set ?evs2"
    unfolding s2 by simp
  from a created
  have used: "mostRecentMarker demoColumns (lastKnownListTitle demoLoopState) ([demoSheet ! 1] @ [demoSheet ! 2])
       = Some (ascii ''Work'')"
    by blast
  from c nolist
  have skipped: "snd (processRow mockTasks demoColumns 4 (demoSheet ! 3)
             (fst (processRows mockTasks demoColumns 4 [] demoLoopState)))
       = [Log (LogRowNoList 4)]"
    by blast
  from br1 br2 rows1 rows2 s2 nomarker created2 carried notskipped created used nolist skipped
  show ?thesis by blast
qed

section \<open>Skipped rows and failures\<close>

text \<open>
  C7. A row whose title cell is empty (falsy, or blank after trimming) and whose id cell
  has text is a task row titled with the trimmed id. When a list name is in effect and the
  id is no list definition, the final title is the trimmed text of the id cell and the task
  built for the row has it as its title. When the resolver returns the identifier of a list,
  this task is handed to \<^verbatim>\<open>Tasks.Tasks.insert\<close> for that list: the loop goes on with the
  remote service as that call left it, and the answer of the call decides whether the row
  is logged as created and counted in the report, or logged as failed. A row whose title
  and id are both empty is skipped: it is logged, no task is submitted and neither the
  cache, the report nor the remote service changes.
\<close>

theorem title_falls_back_to_id:
  assumes "\<not> truthyStr (trimmedOrNull (cellAt row (titleIndex cols)))"
  shows "(idIndex cols = Some i \<longrightarrow> trimmedOrNull (cellAt row i) = Some tid \<longrightarrow> tid \<noteq> [] \<longrightarrow>
            \<not> startsWith (toLowerCase tid) (ascii ''list:'') \<longrightarrow>
            effectiveListTitle cols row (lastKnownListTitle st) = Some name \<longrightarrow> name \<noteq> [] \<longrightarrow>
              tid = trim (toString (cellAt row i))
              \<and> finalTaskTitle cols row = Some tid
              \<and> title (buildTask pf cols row tid) = tid
              \<and> (fst (getTaskListIdByName pf name (taskListCache st) (remote st)) \<noteq> Null \<longrightarrow>
                   submittedTasks (snd (processRow pf cols n row st)) = [buildTask pf cols row tid])
              \<and> (getTaskListIdByName pf name (taskListCache st) (remote st)
                     = (Resolved lid, cacheA, ra, evs) \<longrightarrow>
                   processRow pf cols n row st =
                     (case tasks_insert pf (buildTask pf cols row tid) lid ra of
                        (Returned u, rb) \<Rightarrow>
                          (st\<lparr>lastKnownListTitle := Some name, taskListCache := cacheA, remote := rb,
                              reportData := bumpReport name (buildTask pf cols row tid) (reportData st)\<rparr>,
                           evs @ [Call (CreateTask (buildTask pf cols row tid) (Resolved lid)),
                                  Log (LogRowCreated n tid name), Sleep API_DELAY_MS])
                      | (Threw, rb) \<Rightarrow>
                          (st\<lparr>lastKnownListTitle := Some name, taskListCache := cacheA, remote := rb\<rparr>,
                           evs @ [Call (CreateTask (buildTask pf cols row tid) (Resolved lid)),
                                  Log (LogRowFailed n tid)]))))
       \<and> ((idIndex cols = None \<or> (\<exists>j. idIndex cols = Some j \<and> \<not> truthyStr (trimmedOrNull (cellAt row j)))) \<longrightarrow>
              submittedTasks (snd (processRow pf cols n row st)) = []
              \<and> rowsLogged (snd (processRow pf cols n row st)) = [n]
              \<and> (snd (processRow pf cols n row st) = [Log (LogRowEmpty n)]
                   \<or> snd (processRow pf cols n row st) = [Log (LogRowNoList n)])
              \<and> taskListCache (fst (processRow pf cols n row st)) = taskListCache st
              \<and> reportData (fst (processRow pf cols n row st)) = reportData st
              \<and> remote (fst (processRow pf cols n row st)) = remote st)"
proof -
  have first: "tid = trim (toString (cellAt row i))
      \<and> finalTaskTitle cols row = Some tid
      \<and> title (buildTask pf cols row tid) = tid
      \<and> (fst (getTaskListIdByName pf name (taskListCache st) (remote st)) \<noteq> Null \<longrightarrow>
           submittedTasks (snd (processRow pf cols n row st)) = [buildTask pf cols row tid])
      \<and> (getTaskListIdByName pf name (taskListCache st) (remote st)
             = (Resolved lid, cacheA, ra, evs) \<longrightarrow>
           processRow pf cols n row st =
             (case tasks_insert pf (buildTask pf cols row tid) lid ra of
                (Returned u, rb) \<Rightarrow>
                  (st\<lparr>lastKnownListTitle := Some name, taskListCache := cacheA, remote := rb,
                      reportData := bumpReport name (buildTask pf cols row tid) (reportData st)\<rparr>,
                   evs @ [Call (CreateTask (buildTask pf cols row tid) (Resolved lid)),
                          Log (LogRowCreated n tid name), Sleep API_DELAY_MS])
              | (Threw, rb) \<Rightarrow>
                  (st\<lparr>lastKnownListTitle := Some name, taskListCache := cacheA, remote := rb\<rparr>,
                   evs @ [Call (CreateTask (buildTask pf cols row tid) (Resolved lid)),
                          Log (LogRowFailed n tid)])))"
    if i: "idIndex cols = Some i" and tid: "trimmedOrNull (cellAt row i) = Some tid" "tid \<noteq> []"
      and nl: "\<not> startsWith (toLowerCase tid) (ascii ''list:'')"
      and name: "effectiveListTitle cols row (lastKnownListTitle st) = Some name" "name \<noteq> []"
  proof (intro conjI impI)
    from tid(1) show "tid = trim (toString (cellAt row i))"
      by (simp add: trimmedOrNull_def split: if_splits)
    from assms i tid show ft: "finalTaskTitle cols row = Some tid"
      by (simp add: finalTaskTitle_def jsOr_def Let_def)
    show "title (buildTask pf cols row tid) = tid"
      by (simp add: buildTask_def)
    {
      assume g: "getTaskListIdByName pf name (taskListCache st) (remote st)
                   = (Resolved lid, cacheA, ra, evs)"
      show "processRow pf cols n row st =
             (case tasks_insert pf (buildTask pf cols row tid) lid ra of
                (Returned u, rb) \<Rightarrow>
                  (st\<lparr>lastKnownListTitle := Some name, taskListCache := cacheA, remote := rb,
                      reportData := bumpReport name (buildTask pf cols row tid) (reportData st)\<rparr>,
                   evs @ [Call (CreateTask (buildTask pf cols row tid) (Resolved lid)),
                          Log (LogRowCreated n tid name), Sleep API_DELAY_MS])
              | (Threw, rb) \<Rightarrow>
                  (st\<lparr>lastKnownListTitle := Some name, taskListCache := cacheA, remote := rb\<rparr>,
                   evs @ [Call (CreateTask (buildTask pf cols row tid) (Resolved lid)),
                          Log (LogRowFailed n tid)]))"
        by (rule processRow_resolved [OF name ft tid(2) nl g])
    }
    assume res: "fst (getTaskListIdByName pf name (taskListCache st) (remote st)) \<noteq> Null"
    let ?st = "st\<lparr>lastKnownListTitle := Some name\<rparr>"
    obtain r cache1 r1 revs where g:
      "getTaskListIdByName pf name (taskListCache ?st) (remote ?st) = (r, cache1, r1, revs)"
      by (metis prod_cases4)
    with res have nn: "r \<noteq> Null" by simp
    from resolver_events [OF g] have none: "submittedTasks revs = []" by simp
    obtain x r2 where ins: "insertTask pf (buildTask pf cols row tid) r r1 = (x, r2)"
      by (cases "insertTask pf (buildTask pf cols row tid) r r1")
    have "submittedTasks (snd (submitTask pf cols n row name tid ?st)) = [buildTask pf cols row tid]"
    proof (cases x)
      case Threw
      with submitTask_cases [OF g, where cols=cols and row=row and ttl=tid and rb=r2 and n=n] nn ins none
      show ?thesis by simp
    next
      case (Returned u)
      with submitTask_cases [OF g, where cols=cols and row=row and ttl=tid and rb=r2 and n=n and u=u] nn ins none
      show ?thesis by simp
    qed
    with processRow_task_row [OF name ft tid(2) nl, of pf n]
    show "submittedTasks (snd (processRow pf cols n row st)) = [buildTask pf cols row tid]"
      by simp
  qed
  have second: "submittedTasks (snd (processRow pf cols n row st)) = []
      \<and> rowsLogged (snd (processRow pf cols n row st)) = [n]
      \<and> (snd (processRow pf cols n row st) = [Log (LogRowEmpty n)]
           \<or> snd (processRow pf cols n row st) = [Log (LogRowNoList n)])
      \<and> taskListCache (fst (processRow pf cols n row st)) = taskListCache st
      \<and> reportData (fst (processRow pf cols n row st)) = reportData st
      \<and> remote (fst (processRow pf cols n row st)) = remote st"
    if "idIndex cols = None \<or> (\<exists>j. idIndex cols = Some j \<and> \<not> truthyStr (trimmedOrNull (cellAt row j)))"
  proof -
    from that assms have e: "\<not> truthyStr (finalTaskTitle cols row)"
      by (auto simp: finalTaskTitle_def jsOr_def Let_def)
    note p = processRow_empty_title [OF e, of pf n st]
    from p processRow_rowsLogged [of pf cols n row st] show ?thesis by simp
  qed
  from first second show ?thesis by blast
qed

theorem title_falls_back_to_id_witness:
  "\<not> truthyStr (trimmedOrNull (cellAt (demoSheet ! 2) (titleIndex demoColumns)))
   \<and> idIndex demoColumns = Some 1
   \<and> trimmedOrNull (cellAt (demoSheet ! 2) 1) = Some (ascii ''t2'')
   \<and> \<not> startsWith (toLowerCase (ascii ''t2'')) (ascii ''list:'')
   \<and> effectiveListTitle demoColumns (demoSheet ! 2) (Some (ascii ''Work'')) = Some (ascii ''Work'')
   \<and> getTaskListIdByName mockTasks (ascii ''Work'') Map.empty []
       = (Resolved (ListId 76 (ascii ''Work'')),
          Map.empty(ascii ''Work'' \<mapsto> ListId 76 (ascii ''Work'')),
          [(ascii ''Work'', ListId 76 (ascii ''Work''))],
          [Call (CreateList (ascii ''Work'')), Log (LogListCreated (ascii ''Work''))])
   \<and> buildTask mockTasks demoColumns (demoSheet ! 2) (ascii ''t2'')
       = \<lparr>title = ascii ''t2'', status = Some (ascii ''completed''), due = None,
          notes' = Some (ascii ''Link: starred'')\<rparr>
   \<and> tasks_insert mockTasks (buildTask mockTasks demoColumns (demoSheet ! 2) (ascii ''t2''))
         (ListId 76 (ascii ''Work'')) [(ascii ''Work'', ListId 76 (ascii ''Work''))]
       = (Returned (), [(ascii ''Work'', ListId 76 (ascii ''Work''))])
   \<and> processRow mockTasks demoColumns 3 (demoSheet ! 2)
         (demoLoopState\<lparr>lastKnownListTitle := Some (ascii ''Work'')\<rparr>)
       = (demoLoopState
            \<lparr>lastKnownListTitle := Some (ascii ''Work''),
             taskListCache := Map.empty(ascii ''Work'' \<mapsto> ListId 76 (ascii ''Work'')),
             remote := [(ascii ''Work'', ListId 76 (ascii ''Work''))],
             reportData :=
               bumpReport (ascii ''Work'')
                 (buildTask mockTasks demoColumns (demoSheet ! 2) (ascii ''t2''))
                 (reportData (demoLoopState\<lparr>lastKnownListTitle := Some (ascii ''Work'')\<rparr>))\<rparr>,
          [Call (CreateList (ascii ''Work'')), Log (LogListCreated (ascii ''Work'')),
           Call (CreateTask (buildTask mockTasks demoColumns (demoSheet ! 2) (ascii ''t2''))
                   (Resolved (ListId 76 (ascii ''Work'')))),
           Log (LogRowCreated 3 (ascii ''t2'') (ascii ''Work'')), Sleep API_DELAY_MS])
   \<and> \<not> truthyStr (trimmedOrNull (cellAt (demoSheet ! 4) (titleIndex demoColumns)))
   \<and> \<not> truthyStr (trimmedOrNull (cellAt (demoSheet ! 4) 1))
   \<and> snd (processRow mockTasks demoColumns 5 (demoSheet ! 4) demoLoopState) = [Log (LogRowEmpty 5)]
   \<and> submittedTasks (snd (processRow mockTasks demoColumns 5 (demoSheet ! 4) demoLoopState)) = []"
proof -
  let ?st = "demoLoopState\<lparr>lastKnownListTitle := Some (ascii ''Work'')\<rparr>"
  let ?t = "buildTask mockTasks demoColumns (demoSheet ! 2) (ascii ''t2'')"
  have a: "\<not> truthyStr (trimmedOrNull (cellAt (demoSheet ! 2) (titleIndex demoColumns)))"
    and b: "idIndex demoColumns = Some 1"
    and c: "trimmedOrNull (cellAt (demoSheet ! 2) 1) = Some (ascii ''t2'')"
    and d: "\<not> startsWith (toLowerCase (ascii ''t2'')) (ascii ''list:'')"
    and e: "effectiveListTitle demoColumns (demoSheet ! 2) (Some (ascii ''Work'')) = Some (ascii ''Work'')"
    and f: "getTaskListIdByName mockTasks (ascii ''Work'') Map.empty []
       = (Resolved (ListId 76 (ascii ''Work'')),
          Map.empty(ascii ''Work'' \<mapsto> ListId 76 (ascii ''Work'')),
          [(ascii ''Work'', ListId 76 (ascii ''Work''))],
          [Call (CreateList (ascii ''Work'')), Log (LogListCreated (ascii ''Work''))])"
    and g: "\<not> truthyStr (trimmedOrNull (cellAt (demoSheet ! 4) (titleIndex demoColumns)))"
    and h: "\<not> truthyStr (trimmedOrNull (cellAt (demoSheet ! 4) 1))"
    and k: "snd (processRow mockTasks demoColumns 5 (demoSheet ! 4) demoLoopState) = [Log (LogRowEmpty 5)]"
    and t: "?t = \<lparr>title = ascii ''t2'', status = Some (ascii ''completed''), due = None,
                  notes' = Some (ascii ''Link: starred'')\<rparr>"
    and ne: "ascii ''t2'' \<noteq> []" "ascii ''Work'' \<noteq> []"
    by (simp_all add: eval_defs Let_def)
  have ins: "tasks_insert mockTasks ?t (ListId 76 (ascii ''Work'')) [(ascii ''Work'', ListId 76 (ascii ''Work''))]
       = (Returned (), [(ascii ''Work'', ListId 76 (ascii ''Work''))])"
    unfolding t by (simp add: mockTasks_def ascii_def)
  have st: "lastKnownListTitle ?st = Some (ascii ''Work'')"
      "taskListCache ?st = Map.empty" "remote ?st = []"
    by (simp_all add: demoLoopState_def)
  note inst = title_falls_back_to_id
    [OF a, where i=1 and tid="ascii ''t2''" and name="ascii ''Work''" and pf=mockTasks
       and n=3 and st="?st" and lid="ListId 76 (ascii ''Work'')"
       and cacheA="Map.empty(ascii ''Work'' \<mapsto> ListId 76 (ascii ''Work''))"
       and ra="[(ascii ''Work'', ListId 76 (ascii ''Work''))]"
       and evs="[Call (CreateList (ascii ''Work'')), Log (LogListCreated (ascii ''Work''))]"]
  from inst b c d e f ne
  have "processRow mockTasks demoColumns 3 (demoSheet ! 2) ?st =
          (case tasks_insert mockTasks ?t (ListId 76 (ascii ''Work''))
                  [(ascii ''Work'', ListId 76 (ascii ''Work''))] of
             (Returned u, rb) \<Rightarrow>
               (?st\<lparr>lastKnownListTitle := Some (ascii ''Work''),
                    taskListCache := Map.empty(ascii ''Work'' \<mapsto> ListId 76 (ascii ''Work'')),
                    remote := rb,
                    reportData := bumpReport (ascii ''Work'') ?t (reportData ?st)\<rparr>,
                [Call (CreateList (ascii ''Work'')), Log (LogListCreated (ascii ''Work''))]
                  @ [Call (CreateTask ?t (Resolved (ListId 76 (ascii ''Work'')))),
                     Log (LogRowCreated 3 (ascii ''t2'') (ascii ''Work'')), Sleep API_DELAY_MS])
           | (Threw, rb) \<Rightarrow>
               (?st\<lparr>lastKnownListTitle := Some (ascii ''Work''),
                    taskListCache := Map.empty(ascii ''Work'' \<mapsto> ListId 76 (ascii ''Work'')),
                    remote := rb\<rparr>,
                [Call (CreateList (ascii ''Work'')), Log (LogListCreated (ascii ''Work''))]
                  @ [Call (CreateTask ?t (Resolved (ListId 76 (ascii ''Work'')))),
                     Log (LogRowFailed 3 (ascii ''t2''))]))"
    unfolding st by blast
  then have first: "processRow mockTasks demoColumns 3 (demoSheet ! 2) ?st
       = (demoLoopState
            \<lparr>lastKnownListTitle := Some (ascii ''Work''),
             taskListCache := Map.empty(ascii ''Work'' \<mapsto> ListId 76 (ascii ''Work'')),
             remote := [(ascii ''Work'', ListId 76 (ascii ''Work''))],
             reportData := bumpReport (ascii ''Work'') ?t (reportData ?st)\<rparr>,
          [Call (CreateList (ascii ''Work'')), Log (LogListCreated (ascii ''Work'')),
           Call (CreateTask ?t (Resolved (ListId 76 (ascii ''Work'')))),
           Log (LogRowCreated 3 (ascii ''t2'') (ascii ''Work'')), Sleep API_DELAY_MS])"
    unfolding ins by simp
  from title_falls_back_to_id [OF g, where pf=mockTasks and n=5 and st=demoLoopState] b h
  have second: "submittedTasks (snd (processRow mockTasks demoColumns 5 (demoSheet ! 4) demoLoopState)) = []"
    by blast
  from a b c d e f t ins first g h k second show ?thesis by blast
qed



section \<open>The report\<close>












section \<open>The cache against a stable remote service\<close>

lemma mergeLists_Nil [simp]: "mergeLists c [] = c"
  by (simp add: mergeLists_def)

lemma mergeLists_snoc:
  "mergeLists c (xs @ [x]) = jsSet (mergeLists c xs) (fst x) (snd x)"
  by (simp add: mergeLists_def)

text \<open>What a lookup finds after a refresh: the last remote list of the name wins.\<close>

lemma mergeLists_apply:
  "mergeLists c xs k =
     (if k = ascii ''__proto__'' \<and> c k = None then None
      else (case map_of (rev xs) k of Some v \<Rightarrow> Some v | None \<Rightarrow> c k))"
proof (induction xs arbitrary: k rule: rev_induct)
  case Nil
  show ?case by auto
next
  case (snoc x xs)
  show ?case
    unfolding mergeLists_snoc jsSet_def
    by (auto simp: snoc.IH split: option.splits if_splits)
qed

lemma mergeLists_idem: "mergeLists (mergeLists c xs) xs = mergeLists c xs"
  by (rule ext) (auto simp: mergeLists_apply split: option.splits)

lemma mergeLists_listed:
  "mergeLists c (visibleLists pf r) k =
     (if k = ascii ''__proto__'' \<and> c k = None then None
      else (case listed pf r k of Some v \<Rightarrow> Some v | None \<Rightarrow> c k))"
  unfolding listed_def by (rule mergeLists_apply)

lemma cacheCurrent_listed:
  assumes "listed pf r1 = listed pf r"
  shows "cacheCurrent pf c r1 \<longleftrightarrow> cacheCurrent pf c r"
proof -
  have "mergeLists c (visibleLists pf r1) = mergeLists c (visibleLists pf r)"
    by (rule ext) (simp only: mergeLists_listed assms)
  then show ?thesis by (simp add: cacheCurrent_def)
qed

text \<open>From related states the service answers alike.\<close>

lemma simulation_list:
  assumes "isSimulation pf sim" and "sim x y"
  shows "fst (tasklists_list pf x) = fst (tasklists_list pf y)"
    and "sim (snd (tasklists_list pf x)) (snd (tasklists_list pf y))"
  using assms unfolding isSimulation_def by blast+

lemma simulation_insert:
  assumes "isSimulation pf sim" and "sim x y"
  shows "fst (tasklists_insert pf name x) = fst (tasklists_insert pf name y)"
    and "sim (snd (tasklists_insert pf name x)) (snd (tasklists_insert pf name y))"
  using assms unfolding isSimulation_def by blast+

lemma simulation_tasks:
  assumes "isSimulation pf sim" and "sim x y"
  shows "fst (tasks_insert pf t i x) = fst (tasks_insert pf t i y)"
    and "sim (snd (tasks_insert pf t i x)) (snd (tasks_insert pf t i y))"
  using assms unfolding isSimulation_def by blast+

lemma simulation_refl:
  assumes "isSimulation pf sim"
  shows "sim x x"
  using assms unfolding isSimulation_def by blast

lemma simulation_trans:
  assumes "isSimulation pf sim" and "sim x y" and "sim y z"
  shows "sim x z"
  using assms unfolding isSimulation_def by blast

lemma simulation_visible:
  assumes "isSimulation pf sim" and "sim x y"
  shows "visibleLists pf x = visibleLists pf y"
  by (simp add: visibleLists_def simulation_list(1) [OF assms])

lemma simulation_listed:
  assumes "isSimulation pf sim" and "sim x y"
  shows "listed pf x = listed pf y"
  by (simp add: listed_def simulation_visible [OF assms])

lemma resolver_sim:
  assumes sm: "isSimulation pf sim" and xy: "sim x y"
    and g: "getTaskListIdByName pf name c x = (res, c1, x1, evs)"
  shows "\<exists>y1. getTaskListIdByName pf name c y = (res, c1, y1, evs) \<and> sim x1 y1"
proof (cases "jsGet c name")
  case (Own i)
  with g xy show ?thesis by (auto simp: getTaskListIdByName_def)
next
  case Inherited
  with g xy show ?thesis by (auto simp: getTaskListIdByName_def)
next
  case Absent
  obtain cres xa where ix: "tasklists_insert pf name x = (cres, xa)"
    by (cases "tasklists_insert pf name x")
  obtain cres' ya where iy: "tasklists_insert pf name y = (cres', ya)"
    by (cases "tasklists_insert pf name y")
  from simulation_insert [OF sm xy, of name] ix iy have c: "cres' = cres" and a: "sim xa ya"
    by simp_all
  obtain lres xb where lx: "tasklists_list pf xa = (lres, xb)"
    by (cases "tasklists_list pf xa")
  obtain lres' yb where ly: "tasklists_list pf ya = (lres', yb)"
    by (cases "tasklists_list pf ya")
  from simulation_list [OF sm a] lx ly have l: "lres' = lres" and b: "sim xb yb"
    by simp_all
  from g Absent ix iy c a lx ly l b show ?thesis
    by (auto simp: getTaskListIdByName_def split: js_result.splits option.splits)
qed

lemma insertTask_sim:
  assumes sm: "isSimulation pf sim" and xy: "sim x y"
    and i: "insertTask pf t res x = (a, x1)"
  shows "\<exists>y1. insertTask pf t res y = (a, y1) \<and> sim x1 y1"
proof (cases res)
  case (Resolved lid)
  obtain a' y1 where iy: "tasks_insert pf t lid y = (a', y1)"
    by (cases "tasks_insert pf t lid y")
  from simulation_tasks [OF sm xy, of t lid] i iy Resolved show ?thesis
    by (simp add: insertTask_def)
next
  case ProtoMember
  with i xy show ?thesis by (auto simp: insertTask_def)
next
  case Null
  with i xy show ?thesis by (auto simp: insertTask_def)
qed

lemma submitTask_sim:
  assumes sm: "isSimulation pf sim" and ss: "sameLoop sim s s'"
  shows "sameLoop sim (fst (submitTask pf cols n row name ttl s))
           (fst (submitTask pf cols n row name ttl s'))"
proof -
  from ss have eq: "lastKnownListTitle s = lastKnownListTitle s'"
      "taskListCache s = taskListCache s'" "reportData s = reportData s'"
    and xy: "sim (remote s) (remote s')"
    by (simp_all add: sameLoop_def)
  obtain res c1 x1 evs where g:
    "getTaskListIdByName pf name (taskListCache s) (remote s) = (res, c1, x1, evs)"
    by (metis prod_cases4)
  from resolver_sim [OF sm xy g] obtain y1 where g':
    "getTaskListIdByName pf name (taskListCache s') (remote s') = (res, c1, y1, evs)"
    and x1: "sim x1 y1"
    unfolding eq by blast
  obtain a x2 where i: "insertTask pf (buildTask pf cols row ttl) res x1 = (a, x2)"
    by (cases "insertTask pf (buildTask pf cols row ttl) res x1")
  from insertTask_sim [OF sm x1 i] obtain y2 where i':
    "insertTask pf (buildTask pf cols row ttl) res y1 = (a, y2)" and x2: "sim x2 y2"
    by blast
  show ?thesis
  proof (cases "res = Null")
    case True
    with submitTask_cases [OF g, where cols=cols and row=row and ttl=ttl and n=n]
      submitTask_cases [OF g', where cols=cols and row=row and ttl=ttl and n=n] eq x1
    show ?thesis by (simp add: sameLoop_def)
  next
    case False
    with submitTask_cases [OF g, where cols=cols and row=row and ttl=ttl and n=n and rb=x2]
      submitTask_cases [OF g', where cols=cols and row=row and ttl=ttl and n=n and rb=y2]
      i i' eq x2
    show ?thesis by (cases a) (simp_all add: sameLoop_def)
  qed
qed

text \<open>The loop body either ends at once or goes on to the resolver; the row decides.\<close>

lemma processRow_shape:
  "(\<exists>e. \<forall>s. lastKnownListTitle s = lk \<longrightarrow>
          processRow pf cols n row s
            = (s\<lparr>lastKnownListTitle := effectiveListTitle cols row lk\<rparr>, [e]))
   \<or> (\<exists>name ttl. \<forall>s. lastKnownListTitle s = lk \<longrightarrow>
          processRow pf cols n row s
            = submitTask pf cols n row name ttl (s\<lparr>lastKnownListTitle := Some name\<rparr>))"
proof -
  consider
      (nolist) "\<not> truthyStr (effectiveListTitle cols row lk)"
    | (empty) "truthyStr (effectiveListTitle cols row lk)" "\<not> truthyStr (finalTaskTitle cols row)"
    | (listdef) name ttl where "effectiveListTitle cols row lk = Some name" "name \<noteq> []"
        "finalTaskTitle cols row = Some ttl" "ttl \<noteq> []"
        "startsWith (toLowerCase ttl) (ascii ''list:'')"
    | (task) name ttl where "effectiveListTitle cols row lk = Some name" "name \<noteq> []"
        "finalTaskTitle cols row = Some ttl" "ttl \<noteq> []"
        "\<not> startsWith (toLowerCase ttl) (ascii ''list:'')"
  proof (cases "effectiveListTitle cols row lk")
    case None
    with nolist show ?thesis by simp
  next
    case (Some name)
    show ?thesis
    proof (cases "finalTaskTitle cols row")
      case None
      with Some nolist empty show ?thesis by (cases "name = []") simp_all
    next
      case ttl: (Some ttl)
      with Some nolist empty listdef task show ?thesis
        by (cases "name = []"; cases "ttl = []") auto
    qed
  qed
  then show ?thesis
  proof cases
    case nolist
    have "\<forall>s. lastKnownListTitle s = lk \<longrightarrow>
          processRow pf cols n row s
            = (s\<lparr>lastKnownListTitle := effectiveListTitle cols row lk\<rparr>, [Log (LogRowNoList n)])"
      using nolist processRow_no_list [of cols row _ pf n] by auto
    then show ?thesis by blast
  next
    case empty
    have "\<forall>s. lastKnownListTitle s = lk \<longrightarrow>
          processRow pf cols n row s
            = (s\<lparr>lastKnownListTitle := effectiveListTitle cols row lk\<rparr>, [Log (LogRowEmpty n)])"
      using empty processRow_empty_title [of cols row pf n] by auto
    then show ?thesis by blast
  next
    case listdef
    then have "\<forall>s. lastKnownListTitle s = lk \<longrightarrow>
          processRow pf cols n row s
            = (s\<lparr>lastKnownListTitle := effectiveListTitle cols row lk\<rparr>, [Log (LogRowListDef n)])"
      by (simp add: processRow_def Let_def)
    then show ?thesis by blast
  next
    case task
    then have "\<forall>s. lastKnownListTitle s = lk \<longrightarrow>
          processRow pf cols n row s
            = submitTask pf cols n row name ttl (s\<lparr>lastKnownListTitle := Some name\<rparr>)"
      by (simp add: processRow_def Let_def)
    then show ?thesis by blast
  qed
qed

lemma processRow_sim:
  assumes sm: "isSimulation pf sim" and ss: "sameLoop sim s s'"
  shows "sameLoop sim (fst (processRow pf cols n row s)) (fst (processRow pf cols n row s'))"
proof -
  from ss have lk: "lastKnownListTitle s' = lastKnownListTitle s" by (simp add: sameLoop_def)
  from processRow_shape [of "lastKnownListTitle s" pf cols n row]
  show ?thesis
  proof
    assume "\<exists>e. \<forall>t. lastKnownListTitle t = lastKnownListTitle s \<longrightarrow>
          processRow pf cols n row t
            = (t\<lparr>lastKnownListTitle := effectiveListTitle cols row (lastKnownListTitle s)\<rparr>, [e])"
    then obtain e where "\<And>t. lastKnownListTitle t = lastKnownListTitle s \<Longrightarrow>
          processRow pf cols n row t
            = (t\<lparr>lastKnownListTitle := effectiveListTitle cols row (lastKnownListTitle s)\<rparr>, [e])"
      by blast
    from this [of s] this [of s'] lk ss show ?thesis by (simp add: sameLoop_def)
  next
    assume "\<exists>name ttl. \<forall>t. lastKnownListTitle t = lastKnownListTitle s \<longrightarrow>
          processRow pf cols n row t
            = submitTask pf cols n row name ttl (t\<lparr>lastKnownListTitle := Some name\<rparr>)"
    then obtain name ttl where "\<And>t. lastKnownListTitle t = lastKnownListTitle s \<Longrightarrow>
          processRow pf cols n row t
            = submitTask pf cols n row name ttl (t\<lparr>lastKnownListTitle := Some name\<rparr>)"
      by blast
    from this [of s] this [of s'] lk
    have p: "processRow pf cols n row s
               = submitTask pf cols n row name ttl (s\<lparr>lastKnownListTitle := Some name\<rparr>)"
        "processRow pf cols n row s'
               = submitTask pf cols n row name ttl (s'\<lparr>lastKnownListTitle := Some name\<rparr>)"
      by simp_all
    from ss have "sameLoop sim (s\<lparr>lastKnownListTitle := Some name\<rparr>) (s'\<lparr>lastKnownListTitle := Some name\<rparr>)"
      by (simp add: sameLoop_def)
    from submitTask_sim [OF sm this] show ?thesis unfolding p .
  qed
qed

lemma processRows_sim:
  assumes sm: "isSimulation pf sim"
  shows "sameLoop sim s s' \<Longrightarrow>
           sameLoop sim (fst (processRows pf cols n rows s)) (fst (processRows pf cols n rows s'))"
proof (induction rows arbitrary: n s s')
  case Nil
  then show ?case by simp
next
  case (Cons row rows)
  from Cons.IH [OF processRow_sim [OF sm Cons.prems]]
  show ?case by (simp only: fst_processRows_Cons)
qed

text \<open>What the conditions on a stable remote service say of a single call.\<close>

lemma stableRemote_tasks:
  assumes "stableRemote pf" and "tasks_insert pf t i r = (res, r1)"
  shows "listed pf r1 = listed pf r"
proof -
  from assms(1) have "listed pf (snd (tasks_insert pf t i r)) = listed pf r"
    unfolding stableRemote_def by blast
  with assms(2) show ?thesis by simp
qed

lemma stableRemote_insert:
  assumes "stableRemote pf" and "tasklists_insert pf name r = (res, r1)"
  shows "listed pf r1 = listed pf r
         \<or> (\<exists>i. res = Returned (Some i) \<and> listed pf r1 = (listed pf r)(name \<mapsto> i))"
proof -
  from assms(1) have "listed pf (snd (tasklists_insert pf name r)) = listed pf r
      \<or> (\<exists>i. fst (tasklists_insert pf name r) = Returned (Some i)
             \<and> listed pf (snd (tasklists_insert pf name r)) = (listed pf r)(name \<mapsto> i))"
    unfolding stableRemote_def by blast
  with assms(2) show ?thesis by simp
qed

lemma refreshCache_current:
  assumes sm: "isSimulation pf sim" and idle: "\<And>r. sim (snd (tasklists_list pf r)) r"
    and rf: "refreshCache pf c r = (c1, r1, evs)"
  shows "sim r1 r \<and> cacheCurrent pf c1 r1"
proof -
  obtain res ra where l: "tasklists_list pf r = (res, ra)" by (cases "tasklists_list pf r")
  from idle [of r] l have s: "sim ra r" by simp
  from l rf have r1: "r1 = ra"
    by (auto simp: refreshCache_def split: js_result.splits option.splits)
  from l rf have "cacheCurrent pf c1 r"
    by (auto simp: refreshCache_def cacheCurrent_def visibleLists_def mergeLists_idem
             split: js_result.splits option.splits)
  with cacheCurrent_listed [OF simulation_listed [OF sm s], of c1] s r1 show ?thesis by simp
qed

lemma refreshCache_noop:
  assumes sm: "isSimulation pf sim" and idle: "\<And>r. sim (snd (tasklists_list pf r)) r"
    and cur: "cacheCurrent pf c r"
  shows "fst (refreshCache pf c r) = c \<and> sim (fst (snd (refreshCache pf c r))) r"
proof -
  obtain res ra where l: "tasklists_list pf r = (res, ra)" by (cases "tasklists_list pf r")
  from idle [of r] l have s: "sim ra r" by simp
  from l cur s show ?thesis
    by (auto simp: refreshCache_def cacheCurrent_def visibleLists_def
             split: js_result.splits option.splits)
qed

lemma cacheCurrent_not_listed:
  assumes cur: "cacheCurrent pf c r" and miss: "jsGet c name = Absent"
  shows "listed pf r name = None"
proof -
  from miss have np: "name \<noteq> ascii ''__proto__''" and none: "c name = None"
    by (auto simp: jsGet_Absent objectPrototypeKeys_def)
  from cur have "mergeLists c (visibleLists pf r) name = c name"
    by (simp add: cacheCurrent_def)
  with np none show ?thesis
    by (auto simp: mergeLists_listed split: option.splits)
qed

lemma cacheCurrent_created:
  assumes cur: "cacheCurrent pf c r" and miss: "jsGet c name = Absent"
    and vis: "listed pf r1 = (listed pf r)(name \<mapsto> i)"
  shows "cacheCurrent pf (jsSet c name i) r1"
proof -
  from miss have np: "name \<noteq> ascii ''__proto__''"
    by (auto simp: jsGet_Absent objectPrototypeKeys_def)
  from cur have eq: "\<And>k. mergeLists c (visibleLists pf r) k = c k"
    by (simp add: cacheCurrent_def)
  have "mergeLists (c(name \<mapsto> i)) (visibleLists pf r1) k = (c(name \<mapsto> i)) k" for k
    using eq [of k] np unfolding mergeLists_listed vis
    by (auto split: option.splits if_splits)
  then show ?thesis
    unfolding cacheCurrent_def jsSet_plain [OF np] by (rule ext)
qed

lemma cacheCurrent_hidden:
  assumes cur: "cacheCurrent pf c r" and miss: "jsGet c name = Absent"
    and vis: "listed pf r1 = listed pf r"
  shows "cacheCurrent pf (jsSet c name i) r1"
proof -
  from miss have np: "name \<noteq> ascii ''__proto__''"
    by (auto simp: jsGet_Absent objectPrototypeKeys_def)
  note m = cacheCurrent_not_listed [OF cur miss]
  from cur have eq: "\<And>k. mergeLists c (visibleLists pf r) k = c k"
    by (simp add: cacheCurrent_def)
  have "mergeLists (c(name \<mapsto> i)) (visibleLists pf r1) k = (c(name \<mapsto> i)) k" for k
    using eq [of k] np m unfolding mergeLists_listed vis
    by (auto split: option.splits if_splits)
  then show ?thesis
    unfolding cacheCurrent_def jsSet_plain [OF np] by (rule ext)
qed

lemma cacheCurrent_no_match:
  assumes cur: "cacheCurrent pf c r" and miss: "jsGet c name = Absent"
  shows "find (\<lambda>l. fst l = name) (visibleLists pf r) = None"
proof (rule ccontr)
  assume "find (\<lambda>l. fst l = name) (visibleLists pf r) \<noteq> None"
  then obtain l where "l \<in> set (visibleLists pf r)" "fst l = name"
    by (auto simp: find_None_iff)
  then have "name \<in> fst ` set (rev (visibleLists pf r))" by force
  then have "map_of (rev (visibleLists pf r)) name \<noteq> None"
    by (simp add: map_of_eq_None_iff)
  with cacheCurrent_not_listed [OF cur miss] show False
    by (simp add: listed_def)
qed

lemma resolver_current:
  assumes st: "stableRemote pf"
    and sm: "isSimulation pf sim" and idle: "\<And>r. sim (snd (tasklists_list pf r)) r"
    and cur: "cacheCurrent pf c r"
    and g: "getTaskListIdByName pf name c r = (res, c1, r1, evs)"
  shows "cacheCurrent pf c1 r1"
proof (cases "jsGet c name")
  case (Own i)
  with g cur show ?thesis by (simp add: getTaskListIdByName_def)
next
  case Inherited
  with g cur show ?thesis by (simp add: getTaskListIdByName_def)
next
  case Absent
  obtain cres ra where ins: "tasklists_insert pf name r = (cres, ra)"
    by (cases "tasklists_insert pf name r")
  note vis = stableRemote_insert [OF st ins]
  show ?thesis
  proof (cases cres)
    case (Returned created)
    show ?thesis
    proof (cases created)
      case None
      with Returned vis have "listed pf ra = listed pf r" by simp
      from cacheCurrent_listed [OF this, of c] cur have "cacheCurrent pf c ra" by simp
      with g Absent ins Returned None show ?thesis
        by (simp add: getTaskListIdByName_def)
    next
      case (Some i)
      with Returned vis have "listed pf ra = listed pf r
          \<or> listed pf ra = (listed pf r)(name \<mapsto> i)"
        by auto
      then have "cacheCurrent pf (jsSet c name i) ra"
        using cacheCurrent_created [OF cur Absent] cacheCurrent_hidden [OF cur Absent]
        by blast
      with g Absent ins Returned Some show ?thesis
        by (simp add: getTaskListIdByName_def)
    qed
  next
    case Threw
    with vis have same: "listed pf ra = listed pf r" by simp
    from cacheCurrent_listed [OF this, of c] cur have cura: "cacheCurrent pf c ra" by simp
    obtain lres rb where l: "tasklists_list pf ra = (lres, rb)" by (cases "tasklists_list pf ra")
    from idle [of ra] l have "sim rb ra" by simp
    from cacheCurrent_listed [OF simulation_listed [OF sm this], of c] cura
    have curb: "cacheCurrent pf c rb" by simp
    have nomatch: "find (\<lambda>l. fst l = name) (case items of Some taskLists \<Rightarrow> taskLists | None \<Rightarrow> []) = None"
      if "lres = Returned items" for items
    proof (cases items)
      case None
      then show ?thesis by simp
    next
      case (Some ls)
      with that l have "visibleLists pf ra = ls" by (simp add: visibleLists_def)
      with cacheCurrent_no_match [OF cura Absent] Some show ?thesis by simp
    qed
    from g Absent ins Threw l curb nomatch show ?thesis
      by (auto simp: getTaskListIdByName_def split: js_result.splits option.splits)
  qed
qed

lemma insertTask_listed:
  assumes "stableRemote pf" and "insertTask pf t res r = (x, r1)"
  shows "listed pf r1 = listed pf r"
  using assms
  by (cases res) (auto simp: insertTask_def dest: stableRemote_tasks)

lemma submitTask_current:
  assumes st: "stableRemote pf"
    and sm: "isSimulation pf sim" and idle: "\<And>r. sim (snd (tasklists_list pf r)) r"
    and cur: "cacheCurrent pf (taskListCache s) (remote s)"
  shows "cacheCurrent pf (taskListCache (fst (submitTask pf cols n row name ttl s)))
           (remote (fst (submitTask pf cols n row name ttl s)))"
proof -
  obtain res c1 r1 evs where g:
    "getTaskListIdByName pf name (taskListCache s) (remote s) = (res, c1, r1, evs)"
    by (metis prod_cases4)
  note c1 = resolver_current [OF st sm idle cur g]
  obtain x r2 where ins: "insertTask pf (buildTask pf cols row ttl) res r1 = (x, r2)"
    by (cases "insertTask pf (buildTask pf cols row ttl) res r1")
  from cacheCurrent_listed [OF insertTask_listed [OF st ins], of c1] c1
  have c2: "cacheCurrent pf c1 r2" by simp
  show ?thesis
  proof (cases "res = Null")
    case True
    with submitTask_cases [OF g, where cols=cols and row=row and ttl=ttl and n=n] c1
    show ?thesis by simp
  next
    case False
    with submitTask_cases [OF g, where cols=cols and row=row and ttl=ttl and n=n and rb=r2] ins c2
    show ?thesis by (cases x) auto
  qed
qed

lemma processRow_current:
  assumes st: "stableRemote pf"
    and sm: "isSimulation pf sim" and idle: "\<And>r. sim (snd (tasklists_list pf r)) r"
    and cur: "cacheCurrent pf (taskListCache s) (remote s)"
  shows "cacheCurrent pf (taskListCache (fst (processRow pf cols n row s)))
           (remote (fst (processRow pf cols n row s)))"
proof (cases "\<exists>name ttl. processRow pf cols n row s
                 = submitTask pf cols n row name ttl (s\<lparr>lastKnownListTitle := Some name\<rparr>)")
  case True
  then obtain name ttl where p: "processRow pf cols n row s
      = submitTask pf cols n row name ttl (s\<lparr>lastKnownListTitle := Some name\<rparr>)"
    by blast
  from submitTask_current [OF st sm idle, of "s\<lparr>lastKnownListTitle := Some name\<rparr>" cols n row name ttl]
    cur
  show ?thesis unfolding p by simp
next
  case False
  then have "taskListCache (fst (processRow pf cols n row s)) = taskListCache s
             \<and> remote (fst (processRow pf cols n row s)) = remote s"
    by (auto simp: processRow_def Let_def split: option.splits if_splits)
  with cur show ?thesis by simp
qed

lemma processRows_current:
  assumes st: "stableRemote pf"
    and sm: "isSimulation pf sim" and idle: "\<And>r. sim (snd (tasklists_list pf r)) r"
  shows "cacheCurrent pf (taskListCache s) (remote s) \<Longrightarrow>
           cacheCurrent pf (taskListCache (fst (processRows pf cols n rows s)))
             (remote (fst (processRows pf cols n rows s)))"
proof (induction rows arbitrary: n s)
  case Nil
  then show ?case by simp
next
  case (Cons row rows)
  from Cons.IH [OF processRow_current [OF st sm idle Cons.prems]]
  show ?case by (simp only: fst_processRows_Cons)
qed

lemma initialLoopState_current:
  assumes sm: "isSimulation pf sim" and idle: "\<And>r. sim (snd (tasklists_list pf r)) r"
  shows "cacheCurrent pf (taskListCache (initialLoopState pf h)) (remote (initialLoopState pf h))"
proof -
  obtain c1 r1 evs where r: "refreshCache pf (loadCache (properties h)) (service h) = (c1, r1, evs)"
    by (metis prod_cases3)
  from refreshCache_current [OF sm idle r] r show ?thesis
    by (simp add: initialLoopState_def)
qed

section \<open>One pass and many batches\<close>

lemma initialLoopState_alt:
  "initialLoopState pf h =
     \<lparr> lastKnownListTitle = loadLastKnownListTitle (properties h),
       taskListCache = fst (refreshCache pf (loadCache (properties h)) (service h)),
       reportData = loadReport (properties h),
       remote = fst (snd (refreshCache pf (loadCache (properties h)) (service h))) \<rparr>"
  by (simp add: initialLoopState_def split: prod.splits)

text \<open>
  Against a stable remote service the next execution starts its loop with the loop
  variables that the batch before ended with, and with a remote service that cannot be
  told apart from the one that the batch left.
\<close>

lemma initialLoopState_next:
  assumes st: "stableRemote pf"
    and sm: "isSimulation pf sim" and idle: "\<And>r. sim (snd (tasklists_list pf r)) r"
    and br: "batchRuns b ss h sheet cols"
  shows "sameLoop sim (initialLoopState pf (fst (snd (continueProcessWith b pf ss h))))
           (fst (processRows pf cols (loadStartRow (properties h)) (batchRows b sheet h)
                  (initialLoopState pf h)))"
proof -
  define s1 where "s1 = fst (processRows pf cols (loadStartRow (properties h)) (batchRows b sheet h)
                                (initialLoopState pf h))"
  define h1 where "h1 = fst (snd (continueProcessWith b pf ss h))"
  have cur: "cacheCurrent pf (taskListCache s1) (remote s1)"
    unfolding s1_def
    by (rule processRows_current [OF st sm idle initialLoopState_current [OF sm idle]])
  have p: "PROPERTY_CACHE (properties h1) = Some (taskListCache s1)"
      "PROPERTY_REPORT (properties h1) = Some (reportData s1)"
    using continueProcessWith_properties(1) [OF br s1_def] by (simp_all add: h1_def)
  have sv: "service h1 = remote s1"
    using continueProcessWith_properties(2) [OF br s1_def] by (simp add: h1_def)
  have lk: "loadLastKnownListTitle (properties h1) = lastKnownListTitle s1"
    unfolding h1_def s1_def
    by (simp add: persisted_lastKnown [OF br] processRows_lastKnown initialLoopState_alt)
  from refreshCache_noop [OF sm idle cur] p sv
  have rf: "fst (refreshCache pf (loadCache (properties h1)) (service h1)) = taskListCache s1"
      "sim (fst (snd (refreshCache pf (loadCache (properties h1)) (service h1)))) (remote s1)"
    by (simp_all add: loadCache_def)
  have "sameLoop sim (initialLoopState pf h1) s1"
    by (simp add: sameLoop_def initialLoopState_alt rf lk p loadReport_def)
  then show ?thesis by (simp add: h1_def s1_def)
qed

lemma wholeExport_batch:
  assumes st: "stableRemote pf" and br: "batchRuns b ss h sheet cols"
  shows "wholeExport pf ss (fst (snd (continueProcessWith b pf ss h))) = wholeExport pf ss h"
proof -
  let ?s = "loadStartRow (properties h)" and ?k = "rowsToProcess b sheet h"
  define s1 where "s1 = fst (processRows pf cols ?s (batchRows b sheet h) (initialLoopState pf h))"
  define h1 where "h1 = fst (snd (continueProcessWith b pf ss h))"
  from st obtain sim where sm: "isSimulation pf sim"
    and idle: "\<And>r. sim (snd (tasklists_list pf r)) r"
    unfolding stableRemote_def by blast
  from br obtain name where n: "PROPERTY_SHEET_NAME (properties h) = Some name" "name \<noteq> []"
      "ss name = Some sheet"
    and c: "findColumns (getHeaders sheet) = Some cols"
    and le: "?s \<le> getLastRow sheet"
    by (auto simp: batchRuns_def)
  have pos: "0 < ?s" by (rule loadStartRow_pos)
  have k: "0 < ?k" by (rule rowsToProcess_pos [OF br])
  have pr: "properties h1 =
           (properties h)
             \<lparr> PROPERTY_ROW := Some (?s + ?k),
               PROPERTY_CACHE := Some (taskListCache s1),
               PROPERTY_REPORT := Some (reportData s1),
               PROPERTY_LIST :=
                 (if truthyStr (lastKnownListTitle s1)
                  then lastKnownListTitle s1
                  else PROPERTY_LIST (properties h)) \<rparr>"
    using continueProcessWith_properties(1) [OF br s1_def] by (simp add: h1_def)
  from pr n have n1: "PROPERTY_SHEET_NAME (properties h1) = Some name" by simp
  from pr k have row1: "loadStartRow (properties h1) = ?s + ?k" by (simp add: loadStartRow_def)
  from pr have rep1: "loadReport (properties h1) = reportData s1" by (simp add: loadReport_def)
  have init1: "sameLoop sim (initialLoopState pf h1) s1"
    unfolding h1_def s1_def by (rule initialLoopState_next [OF st sm idle br])
  have split: "drop (?s - 1) sheet = batchRows b sheet h @ drop (?s + ?k - 1) sheet"
  proof -
    have "drop (?s - 1) sheet = take ?k (drop (?s - 1) sheet) @ drop ?k (drop (?s - 1) sheet)"
      by (rule append_take_drop_id [symmetric])
    also have "drop ?k (drop (?s - 1) sheet) = drop (?s + ?k - 1) sheet"
      using pos by (simp add: add.commute)
    finally show ?thesis by (simp add: batchRows_def getValues_def)
  qed
  have whole: "wholeExport pf ss h
      = Some (reportData (fst (processRows pf cols (?s + ?k) (drop (?s + ?k - 1) sheet) s1)))"
  proof -
    have "fst (processRows pf cols ?s (drop (?s - 1) sheet) (initialLoopState pf h))
            = fst (processRows pf cols (?s + ?k) (drop (?s + ?k - 1) sheet) s1)"
      by (subst split) (simp add: fst_processRows_append length_batchRows [OF br] s1_def)
    with n c le show ?thesis by (simp add: wholeExport_def)
  qed
  show ?thesis
  proof (cases "?s + ?k > getLastRow sheet")
    case True
    then have "drop (?s + ?k - 1) sheet = []" by (simp add: getLastRow_def)
    with whole have "wholeExport pf ss h = Some (reportData s1)" by simp
    moreover from True n n1 row1 rep1 have "wholeExport pf ss h1 = Some (reportData s1)"
      by (simp add: wholeExport_def)
    ultimately show ?thesis by (simp add: h1_def)
  next
    case False
    from processRows_sim [OF sm init1, of cols "?s + ?k" "drop (?s + ?k - 1) sheet"]
    have "reportData (fst (processRows pf cols (?s + ?k) (drop (?s + ?k - 1) sheet)
                             (initialLoopState pf h1)))
            = reportData (fst (processRows pf cols (?s + ?k) (drop (?s + ?k - 1) sheet) s1))"
      by (simp add: sameLoop_def)
    with False n n1 c row1 have "wholeExport pf ss h1
      = Some (reportData (fst (processRows pf cols (?s + ?k) (drop (?s + ?k - 1) sheet) s1)))"
      by (simp add: wholeExport_def)
    with whole show ?thesis by (simp add: h1_def)
  qed
qed

lemma remainingRows_batch:
  assumes br: "batchRuns b ss h sheet cols" and rem: "remainingRows ss h \<le> b + m"
  shows "remainingRows ss (fst (snd (continueProcessWith b pf ss h))) \<le> m"
proof -
  let ?s = "loadStartRow (properties h)" and ?k = "rowsToProcess b sheet h"
  from br obtain name where n: "PROPERTY_SHEET_NAME (properties h) = Some name"
      "ss name = Some sheet"
    by (auto simp: batchRuns_def)
  have k: "0 < ?k" by (rule rowsToProcess_pos [OF br])
  have pr: "PROPERTY_ROW (properties (fst (snd (continueProcessWith b pf ss h)))) = Some (?s + ?k)"
      "PROPERTY_SHEET_NAME (properties (fst (snd (continueProcessWith b pf ss h)))) = Some name"
    using continueProcessWith_properties(1) [OF br refl, of pf] n by simp_all
  from pr k have "remainingRows ss (fst (snd (continueProcessWith b pf ss h)))
      = getLastRow sheet + 1 - (?s + ?k)"
    using n by (simp add: remainingRows_def loadStartRow_def)
  moreover from rem n have "getLastRow sheet + 1 - ?s \<le> b + m"
    by (simp add: remainingRows_def)
  ultimately show ?thesis by (simp add: rowsToProcess_def min_def split: if_splits)
qed

lemma no_batch_export:
  assumes "\<not> (\<exists>sheet cols. batchRuns b ss h sheet cols)" and "0 < b"
  shows "(case continueProcessWith b pf ss h of
            (Finalized rep, h1, evs) \<Rightarrow> Some rep
          | (other, h1, evs) \<Rightarrow> None) = wholeExport pf ss h
         \<and> fst (continueProcessWith b pf ss h) \<noteq> Rescheduled"
  using assms
  by (auto simp: continueProcessWith_def processBatch_def wholeExport_def batchRuns_def Let_def
           split: option.splits prod.splits)

text \<open>Any schedule of positive batch sizes that covers the remaining rows yields the whole export.\<close>

lemma runExport_whole:
  assumes st: "stableRemote pf"
  shows "(\<forall>b \<in> set sizes. 0 < b) \<Longrightarrow> remainingRows ss h \<le> sum_list sizes
           \<Longrightarrow> runExport sizes pf ss h = wholeExport pf ss h"
proof (induction sizes arbitrary: h)
  case Nil
  then have "\<not> (\<exists>sheet cols. batchRuns BATCH_SIZE ss h sheet cols)"
    by (auto simp: batchRuns_def remainingRows_def)
  from no_batch_export [OF this, of pf] show ?case by (simp add: BATCH_SIZE_def)
next
  case (Cons b bs)
  then have b: "0 < b" by simp
  show ?case
  proof (cases "\<exists>sheet cols. batchRuns b ss h sheet cols")
    case False
    from no_batch_export [OF False b, of pf] show ?thesis
      by (auto split: prod.splits run_result.splits)
  next
    case True
    then obtain sheet cols where br: "batchRuns b ss h sheet cols" by blast
    let ?h1 = "fst (snd (continueProcessWith b pf ss h))"
    from Cons.prems(2) have "remainingRows ss h \<le> b + sum_list bs" by simp
    from remainingRows_batch [OF br this, of pf] have rem: "remainingRows ss ?h1 \<le> sum_list bs" .
    from Cons.prems(1) have "\<forall>b \<in> set bs. 0 < b" by simp
    from Cons.IH [OF this rem] have "runExport bs pf ss ?h1 = wholeExport pf ss ?h1" .
    also have "\<dots> = wholeExport pf ss h" by (rule wholeExport_batch [OF st br])
    finally show ?thesis
      using continueProcessWith_result [OF br, of pf]
      by (auto split: prod.splits)
  qed
qed

lemma wholeExport_Some:
  assumes "batchRuns b ss h sheet cols"
  shows "\<exists>rep. wholeExport pf ss h = Some rep"
  using assms by (auto simp: batchRuns_def wholeExport_def)

text \<open>
  A service that a listing leaves as it is needs no more than the two conditions on the
  listing; the test double is of this kind, and so is every service without a state of its
  own, whatever it answers.
\<close>

lemma stableRemote_pure_listing:
  assumes "\<And>r. snd (tasklists_list pf r) = r"
    and "\<And>t i r. listed pf (snd (tasks_insert pf t i r)) = listed pf r"
    and "\<And>name r. listed pf (snd (tasklists_insert pf name r)) = listed pf r
           \<or> (\<exists>i. fst (tasklists_insert pf name r) = Returned (Some i)
                  \<and> listed pf (snd (tasklists_insert pf name r)) = (listed pf r)(name \<mapsto> i))"
  shows "stableRemote pf"
proof -
  have "isSimulation pf (=)" by (simp add: isSimulation_def)
  moreover have "\<forall>r. snd (tasklists_list pf r) = r" using assms(1) by simp
  ultimately have "\<exists>sim. isSimulation pf sim \<and> (\<forall>r. sim (snd (tasklists_list pf r)) r)"
    by blast
  with assms(2,3) show ?thesis unfolding stableRemote_def by blast
qed

lemma stableRemote_mockTasks: "stableRemote mockTasks"
proof (rule stableRemote_pure_listing)
  show "snd (tasklists_list mockTasks r) = r" for r
    by (simp add: mockTasks_def)
  show "listed mockTasks (snd (tasks_insert mockTasks t i r)) = listed mockTasks r" for t i r
    by (simp add: listed_def visibleLists_def mockTasks_def)
  show "listed mockTasks (snd (tasklists_insert mockTasks name r)) = listed mockTasks r
           \<or> (\<exists>i. fst (tasklists_insert mockTasks name r) = Returned (Some i)
                  \<and> listed mockTasks (snd (tasklists_insert mockTasks name r))
                       = (listed mockTasks r)(name \<mapsto> i))" for name r
    by (auto simp: listed_def visibleLists_def mockTasks_def)
qed

lemma stableRemote_stateless:
  fixes pf :: "unit platform"
  shows "stableRemote pf"
  by (rule stableRemote_pure_listing) simp_all

lemma stableRemote_tallyTasks: "stableRemote tallyTasks"
proof -
  let ?sim = "\<lambda>x y :: nat \<times> (jsstring \<times> list_id) list. snd x = snd y"
  have "isSimulation tallyTasks ?sim"
    by (auto simp: isSimulation_def tallyTasks_def split: prod.splits)
  moreover have "\<forall>r. ?sim (snd (tasklists_list tallyTasks r)) r"
    by (auto simp: tallyTasks_def split: prod.splits)
  ultimately have "\<exists>sim. isSimulation tallyTasks sim
                     \<and> (\<forall>r. sim (snd (tasklists_list tallyTasks r)) r)"
    by blast
  moreover have "\<forall>t i r. listed tallyTasks (snd (tasks_insert tallyTasks t i r)) = listed tallyTasks r"
    by (auto simp: listed_def visibleLists_def tallyTasks_def split: prod.splits)
  moreover have "\<forall>name r.
           listed tallyTasks (snd (tasklists_insert tallyTasks name r)) = listed tallyTasks r
           \<or> (\<exists>i. fst (tasklists_insert tallyTasks name r) = Returned (Some i)
                  \<and> listed tallyTasks (snd (tasklists_insert tallyTasks name r))
                       = (listed tallyTasks r)(name \<mapsto> i))"
    by (auto simp: listed_def visibleLists_def tallyTasks_def split: prod.splits)
  ultimately show ?thesis unfolding stableRemote_def by blast
qed

lemma map_of_snoc:
  "map_of (xs @ [(k, v)]) = (if k \<in> dom (map_of xs) then map_of xs else (map_of xs)(k \<mapsto> v))"
  by (rule ext) (auto simp: map_add_def dom_def split: option.splits)

lemma stableRemote_newestFirstTasks: "stableRemote newestFirstTasks"
proof (rule stableRemote_pure_listing)
  show "snd (tasklists_list newestFirstTasks r) = r" for r
    by (simp add: newestFirstTasks_def)
  show "listed newestFirstTasks (snd (tasks_insert newestFirstTasks t i r)) = listed newestFirstTasks r"
    for t i r
    by (simp add: listed_def visibleLists_def newestFirstTasks_def)
  show "listed newestFirstTasks (snd (tasklists_insert newestFirstTasks name r))
            = listed newestFirstTasks r
           \<or> (\<exists>i. fst (tasklists_insert newestFirstTasks name r) = Returned (Some i)
                  \<and> listed newestFirstTasks (snd (tasklists_insert newestFirstTasks name r))
                       = (listed newestFirstTasks r)(name \<mapsto> i))" for name r
    by (simp add: listed_def visibleLists_def newestFirstTasks_def map_of_snoc del: map_of_append)
qed

text \<open>
  C1, as the claim states it, fails. The remote service is not changed by anyone else and
  the checkpoint goes from each execution to the next as it was stored, and still the
  split run ends with another report: every execution lists the remote task lists once,
  so the split run makes more calls. Against a service with a quota of four calls, the
  export of the sheet of two tasks in one batch creates both tasks (a listing, the creation
  of the list and two tasks make four calls), and the export in two batches of one row
  creates the first only: the listing of the second execution is the fourth call and the
  second task is refused.
\<close>

theorem split_run_makes_more_calls:
  "remainingRows pairSpreadsheet (freshHost (0::nat, []::(jsstring \<times> list_id) list)) = 2
   \<and> reportOf (runExport [2] (quotaTasks 4) pairSpreadsheet (freshHost (0, []))) (ascii ''A'')
       = Some \<lparr>completed = 0, needsAction = 2, total = 2\<rparr>
   \<and> reportOf (runExport [1, 1] (quotaTasks 4) pairSpreadsheet (freshHost (0, []))) (ascii ''A'')
       = Some \<lparr>completed = 0, needsAction = 1, total = 1\<rparr>
   \<and> runExport [2] (quotaTasks 4) pairSpreadsheet (freshHost (0, []))
       \<noteq> runExport [1, 1] (quotaTasks 4) pairSpreadsheet (freshHost (0, []))"
proof -
  have r: "remainingRows pairSpreadsheet (freshHost (0::nat, []::(jsstring \<times> list_id) list)) = 2"
    by (simp add: remainingRows_def freshHost_def pairSpreadsheet_def pairSheet_def eval_defs)
  have one: "reportOf (runExport [2] (quotaTasks 4) pairSpreadsheet (freshHost (0, []))) (ascii ''A'')
       = Some \<lparr>completed = 0, needsAction = 2, total = 2\<rparr>"
    by (simp add: reportOf_def quotaTasks_def freshHost_def pairSpreadsheet_def pairSheet_def
                  eval_defs Let_def)
  have two: "reportOf (runExport [1, 1] (quotaTasks 4) pairSpreadsheet (freshHost (0, []))) (ascii ''A'')
       = Some \<lparr>completed = 0, needsAction = 1, total = 1\<rparr>"
    by (simp add: reportOf_def quotaTasks_def freshHost_def pairSpreadsheet_def pairSheet_def
                  eval_defs Let_def)
  from one two have "runExport [2] (quotaTasks 4) pairSpreadsheet (freshHost (0, []))
       \<noteq> runExport [1, 1] (quotaTasks 4) pairSpreadsheet (freshHost (0, []))"
    by auto
  with r one two show ?thesis by blast
qed

text \<open>
  Nor is it enough that a listing leaves the service as it is. Against a service that
  lists a created list under another identifier than its creation returned, the refresh of
  the cache at the start of the second execution replaces the identifier, and the second
  task goes to another list than in the single pass.
\<close>

lemma listing_under_another_id:
  "reportOf (runExport [2] aliasTasks pairSpreadsheet (freshHost [])) (ascii ''A'')
       = Some \<lparr>completed = 0, needsAction = 2, total = 2\<rparr>
   \<and> reportOf (runExport [1, 1] aliasTasks pairSpreadsheet (freshHost [])) (ascii ''A'')
       = Some \<lparr>completed = 0, needsAction = 1, total = 1\<rparr>"
  by (simp add: reportOf_def aliasTasks_def freshHost_def pairSpreadsheet_def pairSheet_def
                eval_defs Let_def)

text \<open>Neither of the two services is stable under the export.\<close>

lemma quotaTasks_not_stable: "\<not> stableRemote (quotaTasks 4)"
proof
  assume st: "stableRemote (quotaTasks 4)"
  have r: "remainingRows pairSpreadsheet (freshHost (0, [])) = 2"
    by (simp add: remainingRows_def freshHost_def pairSpreadsheet_def pairSheet_def eval_defs)
  have "runExport [2] (quotaTasks 4) pairSpreadsheet (freshHost (0, []))
          = wholeExport (quotaTasks 4) pairSpreadsheet (freshHost (0, []))"
    by (intro runExport_whole [OF st]) (simp_all add: r)
  moreover have "runExport [1, 1] (quotaTasks 4) pairSpreadsheet (freshHost (0, []))
          = wholeExport (quotaTasks 4) pairSpreadsheet (freshHost (0, []))"
    by (intro runExport_whole [OF st]) (simp_all add: r)
  ultimately have "reportOf (runExport [2] (quotaTasks 4) pairSpreadsheet (freshHost (0, []))) (ascii ''A'')
      = reportOf (runExport [1, 1] (quotaTasks 4) pairSpreadsheet (freshHost (0, []))) (ascii ''A'')"
    by simp
  then show False
    by (simp add: reportOf_def quotaTasks_def freshHost_def pairSpreadsheet_def pairSheet_def
                  eval_defs Let_def)
qed

lemma aliasTasks_not_stable: "\<not> stableRemote aliasTasks"
proof
  assume st: "stableRemote aliasTasks"
  have r: "remainingRows pairSpreadsheet (freshHost []) = 2"
    by (simp add: remainingRows_def freshHost_def pairSpreadsheet_def pairSheet_def eval_defs)
  have "runExport [2] aliasTasks pairSpreadsheet (freshHost [])
          = wholeExport aliasTasks pairSpreadsheet (freshHost [])"
    by (intro runExport_whole [OF st]) (simp_all add: r)
  moreover have "runExport [1, 1] aliasTasks pairSpreadsheet (freshHost [])
          = wholeExport aliasTasks pairSpreadsheet (freshHost [])"
    by (intro runExport_whole [OF st]) (simp_all add: r)
  ultimately have "reportOf (runExport [2] aliasTasks pairSpreadsheet (freshHost [])) (ascii ''A'')
      = reportOf (runExport [1, 1] aliasTasks pairSpreadsheet (freshHost [])) (ascii ''A'')"
    by simp
  with listing_under_another_id show False by simp
qed

text \<open>
  C1, amended. With a remote service that is stable under the export (listing the task
  lists has no effect that a later call can observe, inserting a task does not change the
  identifier that the listing shows for a name, and inserting a task list changes it at
  most for the name of that list, to the identifier returned) and the checkpoint handed
  from each execution to the next as it was stored, an export run with one batch that
  takes all the remaining rows writes the same final report as an export run with any
  sequence of positive batch sizes that covers them: the two reports are the same mapping
  from list names to counters. For a sheet that the exporter can process, both runs do
  write a report, and it is the report that one loop over all the remaining rows ends with.
\<close>

theorem resume_correctness:
  assumes "stableRemote pf"
    and "\<forall>b \<in> set sizes. 0 < b" and "remainingRows ss h \<le> sum_list sizes"
    and "0 < n" and "remainingRows ss h \<le> n"
  shows "runExport sizes pf ss h = runExport [n] pf ss h
         \<and> ((\<exists>sheet cols. batchRuns n ss h sheet cols)
              \<longrightarrow> (\<exists>rep. runExport sizes pf ss h = Some rep))
         \<and> runExport sizes pf ss h = wholeExport pf ss h"
proof -
  have one: "runExport [n] pf ss h = wholeExport pf ss h"
    using assms(4,5) by (intro runExport_whole [OF assms(1)]) simp_all
  have many: "runExport sizes pf ss h = wholeExport pf ss h"
    by (rule runExport_whole [OF assms(1,2,3)])
  from one many wholeExport_Some [of n ss h _ _ pf] show ?thesis by auto
qed

theorem resume_correctness_witness:
  "stableRemote mockTasks
   \<and> (0::nat) < 2 \<and> (0::nat) < 1 \<and> (0::nat) < 5
   \<and> remainingRows demoSpreadsheet demoHost \<le> sum_list [2, 2, 1]
   \<and> remainingRows demoSpreadsheet demoHost \<le> 5
   \<and> batchRuns 5 demoSpreadsheet demoHost demoSheet demoColumns
   \<and> runExport [2, 2, 1] mockTasks demoSpreadsheet demoHost
       = runExport [5] mockTasks demoSpreadsheet demoHost
   \<and> map_option (\<lambda>rep. (rep (ascii ''Work''), rep (ascii ''Home''), rep (ascii ''Other'')))
       (runExport [5] mockTasks demoSpreadsheet demoHost)
       = Some (Some \<lparr>completed = 1, needsAction = 1, total = 2\<rparr>,
               Some \<lparr>completed = 1, needsAction = 0, total = 1\<rparr>,
               None)"
proof -
  have r: "remainingRows demoSpreadsheet demoHost = 5"
    by (simp add: remainingRows_def eval_defs)
  have br: "batchRuns 5 demoSpreadsheet demoHost demoSheet demoColumns"
    by (simp add: batchRuns_def eval_defs)
  have v: "map_option (\<lambda>rep. (rep (ascii ''Work''), rep (ascii ''Home''), rep (ascii ''Other'')))
       (runExport [5] mockTasks demoSpreadsheet demoHost)
       = Some (Some \<lparr>completed = 1, needsAction = 1, total = 2\<rparr>,
               Some \<lparr>completed = 1, needsAction = 0, total = 1\<rparr>,
               None)"
    by (simp add: eval_defs Let_def)
  from resume_correctness [OF stableRemote_mockTasks, of "[2, 2, 1]" demoSpreadsheet demoHost 5] r
  have "runExport [2, 2, 1] mockTasks demoSpreadsheet demoHost
       = runExport [5] mockTasks demoSpreadsheet demoHost"
    by simp
  with stableRemote_mockTasks r br v show ?thesis by simp
qed

end
